theory Spec2Isabelle
  imports Main "HOL-Library.AList" "HOL-Library.Multiset"
begin

section \<open>The provider registry of Podman Desktop\<close>

text \<open>
  A shallow embedding of the class \<open>ProviderRegistry\<close>
  (\<open>packages/main/src/plugin/provider-registry.ts\<close>): its maps, its listener arrays, the
  reconciliation timer and the operations on providers, lifecycles and connections.
  The registry runs on one event loop, so every method is a function from the registry to
  a result and the registry after the call. What the registry calls on its collaborators
  (listeners, telemetry, the api sender, lifecycle objects of the extensions, the
  pre-flight callback) is recorded, in call order, in the field \<open>trace\<close>.
\<close>

subsection \<open>Values of the extension API\<close>

text \<open>
  \<open>ProviderStatus\<close> and \<open>ProviderConnectionStatus\<close> are unions of string literals:
  at run time a status is a string, and the registry only compares and copies it.
\<close>

type_synonym ProviderStatus = string
type_synonym ProviderConnectionStatus = string

text \<open>
  A value that a callback throws, or that a promise rejects with. The registry looks at it
  in \<open>runPreflightChecks\<close> only: \<open>instanceof Error\<close>, then \<open>typeof err === 'object'\<close>
  (true also of \<open>null\<close>, where \<open>err?.toString()\<close> is \<open>undefined\<close>).
\<close>

datatype thrown =
    ErrorObj string            \<comment> \<open>an \<open>Error\<close>, with its message\<close>
  | ObjectVal "string option"  \<comment> \<open>another object with what \<open>toString()\<close> gives; \<open>None\<close> is \<open>null\<close>\<close>
  | Primitive                  \<comment> \<open>a string, a number, \<open>undefined\<close>, ...\<close>

text \<open>The outcome of awaiting a promise: \<open>Inl\<close> is a rejection (or a throw).\<close>

type_synonym 'a outcome = "thrown + 'a"

text \<open>
  \<open>new LifecycleContextImpl()\<close> and \<open>new LoggerImpl()\<close> take no argument; the registry
  stores and passes them on and never looks inside.
\<close>

datatype LifecycleContextImpl = LifecycleContextImpl
datatype LoggerImpl = LoggerImpl

text \<open>
  The capability objects an extension registers. A method that may be absent is an
  \<open>option\<close>; a method is given by the outcome of awaiting its call.
\<close>

record ProviderLifecycle =
  lc_initialize :: "unit outcome option"
  lc_start :: "unit outcome"
  lc_stop :: "unit outcome"

record CheckResult =
  cr_successful :: bool
  cr_description :: "string option"
  cr_docLinks :: "string list option"

record InstallCheck =
  chk_title :: string
  chk_execute :: "CheckResult outcome"

record ProviderInstallation =
  inst_preflightChecks :: "InstallCheck list option"
  inst_install :: "unit outcome"

record ProviderUpdate =
  upd_version :: string
  upd_preflightChecks :: "InstallCheck list option"
  upd_update :: "unit outcome"

text \<open>
  \<open>runAutostart\<close> calls \<open>start\<close> of an autostart capability without awaiting it and
  outside any \<open>try\<close>, so there a call that throws before it returns a promise differs
  from a call that returns a promise which rejects.
\<close>

datatype 'a call_result =
    ThrowsSync thrown              \<comment> \<open>the call throws, no promise is returned\<close>
  | ReturnsPromise "'a outcome"    \<comment> \<open>the call returns a promise that settles so\<close>

record ProviderAutostart =
  as_ref :: nat   \<comment> \<open>which object it is\<close>
  as_start :: "unit call_result"

record ConnectionLifecycle =
  cl_start :: "unit outcome option"
  cl_stop :: "unit outcome option"
  cl_delete :: "unit outcome option"

text \<open>
  A container connection is an object of the extension; \<open>connectionLifecycleContexts\<close> is a
  \<open>Map\<close> keyed by the object itself, so the model gives each object a reference.
  \<open>conn_status\<close> is what its \<open>status()\<close> returns.
\<close>

record ContainerProviderConnection =
  conn_ref :: nat
  conn_name :: string
  conn_type :: string
  conn_socketPath :: string
  conn_status :: ProviderConnectionStatus
  conn_lifecycle :: "ConnectionLifecycle option"

record KubernetesProviderConnection =
  kube_name :: string
  kube_apiURL :: string
  kube_status :: ProviderConnectionStatus

record ContainerProviderConnectionFactory =
  fac_initialize :: "unit outcome"
  fac_create :: "unit outcome"

record ProviderOptions =
  po_id :: string
  po_name :: string
  po_status :: ProviderStatus
  po_version :: "string option"
  po_images :: "string list"
  po_links :: "string list"
  po_detectionChecks :: "string list"

text \<open>
  Modelled from the spec: the class \<open>ProviderImpl\<close> (\<open>provider-impl.ts\<close> is not among the
  sources). The fields are the ones the registry reads: the caller-assigned \<open>id\<close>, the
  registry-assigned \<open>internalId\<close>, name, status, the connections, the optional connection
  factory, and the attributes copied into \<open>ProviderInfo\<close>.
\<close>

record ProviderImpl =
  p_id :: string
  p_internalId :: string
  p_name :: string
  p_status :: ProviderStatus
  p_containerConnections :: "ContainerProviderConnection list"
  p_kubernetesConnections :: "KubernetesProviderConnection list"
  p_containerProviderConnectionFactory :: "ContainerProviderConnectionFactory option"
  p_proxy :: "string option"
  p_links :: "string list"
  p_detectionChecks :: "string list"
  p_images :: "string list"
  p_version :: "string option"

text \<open>
  Modelled from the spec: \<open>new ProviderImpl(id, providerOptions, registry, containerRegistry)\<close>;
  the first argument is the internal id, a new provider has no connection yet.
\<close>

definition new_ProviderImpl :: "string \<Rightarrow> ProviderOptions \<Rightarrow> ProviderImpl" where
  "new_ProviderImpl internalId providerOptions =
     \<lparr> p_id = po_id providerOptions,
       p_internalId = internalId,
       p_name = po_name providerOptions,
       p_status = po_status providerOptions,
       p_containerConnections = [],
       p_kubernetesConnections = [],
       p_containerProviderConnectionFactory = None,
       p_proxy = None,
       p_links = po_links providerOptions,
       p_detectionChecks = po_detectionChecks providerOptions,
       p_images = po_images providerOptions,
       p_version = po_version providerOptions \<rparr>"

text \<open>Modelled from the spec: \<open>ProviderImpl.updateStatus\<close> stores the status.\<close>

definition updateStatus :: "ProviderStatus \<Rightarrow> ProviderImpl \<Rightarrow> ProviderImpl" where
  "updateStatus status provider = provider\<lparr>p_status := status\<rparr>"

subsection \<open>The projections sent to listeners (\<open>api/provider-info\<close>)\<close>

record ProviderContainerConnectionInfo =
  ci_name :: string
  ci_status :: ProviderConnectionStatus
  ci_type :: string
  ci_socketPath :: string
  ci_lifecycleMethods :: "string list option"

record ProviderKubernetesConnectionInfo =
  ki_name :: string
  ki_status :: ProviderConnectionStatus
  ki_apiURL :: string

record ProviderInfo =
  pi_id :: string
  pi_internalId :: string
  pi_name :: string
  pi_containerConnections :: "ProviderContainerConnectionInfo list"
  pi_kubernetesConnections :: "ProviderKubernetesConnectionInfo list"
  pi_proxySettings :: "string option"
  pi_status :: ProviderStatus
  pi_containerProviderConnectionCreation :: bool
  pi_links :: "string list"
  pi_detectionChecks :: "string list"
  pi_images :: "string list"
  pi_version :: "string option"
  pi_installationSupport :: bool
  pi_updateInfo :: "string option"
  pi_lifecycleMethods :: "string list option"

record PreflightCheckEvent =
  ev_name :: string
  ev_successful :: "bool option"
  ev_description :: "string option"
  ev_docLinks :: "string list option"

subsection \<open>Calls on the collaborators\<close>

text \<open>A listener is a function object; \<open>indexOf\<close> compares listeners by identity.\<close>

type_synonym listener = nat

datatype effect =
    ListenerCall listener string ProviderInfo
  | LifecycleListenerCall listener string ProviderInfo ProviderLifecycle
  | ConnectionListenerCall listener string ProviderInfo ProviderContainerConnectionInfo
  | TelemetryTrack string "(string \<times> string) list"
  | ApiSend string string
  | LifecycleInitialize ProviderLifecycle LifecycleContextImpl
  | LifecycleStart ProviderLifecycle LifecycleContextImpl
  | LifecycleStop ProviderLifecycle LifecycleContextImpl
  | ConnectionStart ContainerProviderConnection LifecycleContextImpl
  | ConnectionStop ContainerProviderConnection LifecycleContextImpl
  | ConnectionDelete ContainerProviderConnection
  | FactoryInitialize
  | FactoryCreate
  | InstallCall LoggerImpl
  | UpdateCall LoggerImpl
  | AutostartStart ProviderAutostart LoggerImpl
  | StartCheck PreflightCheckEvent
  | CheckExecute InstallCheck
  | EndCheck PreflightCheckEvent
  | ConsoleError thrown

subsection \<open>The registry\<close>

text \<open>
  A JavaScript \<open>Map\<close> iterates in insertion order: \<open>set\<close> on a present key replaces the
  value in place, on a new key appends (\<open>AList.update\<close>), \<open>delete\<close> removes the entry
  (\<open>AList.delete\<close>). The two maps the registry iterates over, \<open>providers\<close> and
  \<open>providerAutostarts\<close>, are association lists; the maps it only looks up are partial
  functions. \<open>count\<close> is a JavaScript number that starts at 0 and is only incremented;
  it is modelled by a natural number.
\<close>

record registry =
  count :: nat
  providers :: "(string \<times> ProviderImpl) list"
  providerStatuses :: "string \<rightharpoonup> ProviderStatus"
  providerLifecycles :: "string \<rightharpoonup> ProviderLifecycle"
  providerLifecycleContexts :: "string \<rightharpoonup> LifecycleContextImpl"
  providerInstallations :: "string \<rightharpoonup> ProviderInstallation"
  providerUpdates :: "string \<rightharpoonup> ProviderUpdate"
  providerAutostarts :: "(string \<times> ProviderAutostart) list"
  connectionLifecycleContexts :: "nat \<rightharpoonup> LifecycleContextImpl"
  listeners :: "listener list"
  lifecycleListeners :: "listener list"
  containerConnectionLifecycleListeners :: "listener list"
  trace :: "effect list"

text \<open>The constructor: empty maps and arrays, count 0 (the timer is \<open>tick\<close> below).\<close>

definition new_ProviderRegistry :: registry where
  "new_ProviderRegistry =
     \<lparr> count = 0, providers = [], providerStatuses = Map.empty,
       providerLifecycles = Map.empty, providerLifecycleContexts = Map.empty,
       providerInstallations = Map.empty, providerUpdates = Map.empty,
       providerAutostarts = [], connectionLifecycleContexts = Map.empty,
       listeners = [], lifecycleListeners = [],
       containerConnectionLifecycleListeners = [], trace = [] \<rparr>"

definition emit :: "effect list \<Rightarrow> registry \<Rightarrow> registry" where
  "emit es r = r\<lparr>trace := trace r @ es\<rparr>"

definition throw_Error :: "string \<Rightarrow> 'a outcome" where
  "throw_Error msg = Inl (ErrorObj msg)"

subsection \<open>\<open>getProviderInfo\<close>\<close>

definition getProviderContainerConnectionInfo ::
  "ContainerProviderConnection \<Rightarrow> ProviderContainerConnectionInfo" where
  "getProviderContainerConnectionInfo connection =
     \<lparr> ci_name = conn_name connection,
       ci_status = conn_status connection,
       ci_type = conn_type connection,
       ci_socketPath = conn_socketPath connection,
       ci_lifecycleMethods =
         (case conn_lifecycle connection of
            None \<Rightarrow> None
          | Some lifecycle \<Rightarrow>
              Some ((if cl_delete lifecycle \<noteq> None then [''delete''] else [])
                  @ (if cl_start lifecycle \<noteq> None then [''start''] else [])
                  @ (if cl_stop lifecycle \<noteq> None then [''stop''] else []))) \<rparr>"

definition getProviderInfo :: "registry \<Rightarrow> ProviderImpl \<Rightarrow> ProviderInfo" where
  "getProviderInfo r provider =
     \<lparr> pi_id = p_id provider,
       pi_internalId = p_internalId provider,
       pi_name = p_name provider,
       pi_containerConnections =
         map getProviderContainerConnectionInfo (p_containerConnections provider),
       pi_kubernetesConnections =
         map (\<lambda>connection. \<lparr> ki_name = kube_name connection,
                              ki_status = kube_status connection,
                              ki_apiURL = kube_apiURL connection \<rparr>)
             (p_kubernetesConnections provider),
       pi_proxySettings = p_proxy provider,
       pi_status = p_status provider,
       pi_containerProviderConnectionCreation =
         (p_containerProviderConnectionFactory provider \<noteq> None),
       pi_links = p_links provider,
       pi_detectionChecks = p_detectionChecks provider,
       pi_images = p_images provider,
       pi_version = p_version provider,
       pi_installationSupport = (providerInstallations r (p_internalId provider) \<noteq> None),
       pi_updateInfo = map_option upd_version (providerUpdates r (p_internalId provider)),
       pi_lifecycleMethods =
         (if providerLifecycles r (p_internalId provider) \<noteq> None
          then Some [''start'', ''stop''] else None) \<rparr>"

text \<open>\<open>this.listeners.forEach(listener => listener(name, info))\<close> and its two siblings.\<close>

definition notify_listeners :: "string \<Rightarrow> ProviderInfo \<Rightarrow> registry \<Rightarrow> registry" where
  "notify_listeners name info r =
     emit (map (\<lambda>listener. ListenerCall listener name info) (listeners r)) r"

definition notify_lifecycleListeners ::
  "string \<Rightarrow> ProviderInfo \<Rightarrow> ProviderLifecycle \<Rightarrow> registry \<Rightarrow> registry" where
  "notify_lifecycleListeners name info lifecycle r =
     emit (map (\<lambda>listener. LifecycleListenerCall listener name info lifecycle)
               (lifecycleListeners r)) r"

definition notify_connectionListeners ::
  "string \<Rightarrow> ProviderInfo \<Rightarrow> ProviderContainerConnectionInfo \<Rightarrow> registry \<Rightarrow> registry" where
  "notify_connectionListeners name info connectionInfo r =
     emit (map (\<lambda>listener. ConnectionListenerCall listener name info connectionInfo)
               (containerConnectionLifecycleListeners r)) r"

subsection \<open>Creating and disposing providers\<close>

text \<open>
  The template literal \<open>`${this.count}`\<close>: the decimal digits of the number.
\<close>

definition digit_char :: "nat \<Rightarrow> char" where
  "digit_char d = char_of (48 + d)"

fun string_of_count :: "nat \<Rightarrow> string" where
  "string_of_count n =
     (if n < 10 then [digit_char n]
      else string_of_count (n div 10) @ [digit_char (n mod 10)])"

declare string_of_count.simps [simp del]

definition createProvider :: "ProviderOptions \<Rightarrow> registry \<Rightarrow> ProviderImpl \<times> registry" where
  "createProvider providerOptions r =
     (let id = string_of_count (count r);
          providerImpl = new_ProviderImpl id providerOptions;
          r1 = r\<lparr>count := count r + 1\<rparr>;
          r2 = r1\<lparr>providers := AList.update id providerImpl (providers r1)\<rparr>;
          r3 = notify_listeners ''provider:create'' (getProviderInfo r2 providerImpl) r2;
          trackOpts = [(''name'', po_name providerOptions),
                       (''status'', po_status providerOptions)]
                    @ (case po_version providerOptions of
                         None \<Rightarrow> []
                       | Some v \<Rightarrow> if v \<noteq> [] then [(''version'', v)] else []);
          r4 = emit [TelemetryTrack ''createProvider'' trackOpts] r3;
          r5 = emit [ApiSend ''provider-create'' id] r4
      in (providerImpl, r5))"

definition disposeProvider :: "ProviderImpl \<Rightarrow> registry \<Rightarrow> registry" where
  "disposeProvider providerImpl r =
     (let r1 = r\<lparr>providers := AList.delete (p_internalId providerImpl) (providers r)\<rparr>;
          r2 = notify_listeners ''provider:delete'' (getProviderInfo r1 providerImpl) r1
      in emit [ApiSend ''provider-delete'' (p_id providerImpl)] r2)"

subsection \<open>Registering capabilities\<close>

text \<open>
  Each \<open>register...\<close> method returns \<open>Disposable.create(() => ...)\<close>. The closure keeps
  the provider and the capability; disposing the handle runs it on the registry of that
  moment. The model has one function for the method and one, named \<open>..._dispose\<close>, for
  the closure.
\<close>

definition registerLifecycle :: "ProviderImpl \<Rightarrow> ProviderLifecycle \<Rightarrow> registry \<Rightarrow> registry" where
  "registerLifecycle providerImpl lifecycle r =
     (let r1 = r\<lparr>providerLifecycles :=
                   (providerLifecycles r)(p_internalId providerImpl \<mapsto> lifecycle)\<rparr>;
          r2 = r1\<lparr>providerLifecycleContexts :=
                   (providerLifecycleContexts r1)(p_internalId providerImpl \<mapsto> LifecycleContextImpl)\<rparr>
      in notify_lifecycleListeners ''provider:register-lifecycle''
           (getProviderInfo r2 providerImpl) lifecycle r2)"

definition registerLifecycle_dispose ::
  "ProviderImpl \<Rightarrow> ProviderLifecycle \<Rightarrow> registry \<Rightarrow> registry" where
  "registerLifecycle_dispose providerImpl lifecycle r =
     (let r1 = r\<lparr>providerLifecycles :=
                   (providerLifecycles r)(p_internalId providerImpl := None)\<rparr>;
          r2 = r1\<lparr>providerLifecycleContexts :=
                   (providerLifecycleContexts r1)(p_internalId providerImpl := None)\<rparr>
      in notify_lifecycleListeners ''provider:removal-lifecycle''
           (getProviderInfo r2 providerImpl) lifecycle r2)"

definition registerInstallation ::
  "ProviderImpl \<Rightarrow> ProviderInstallation \<Rightarrow> registry \<Rightarrow> registry" where
  "registerInstallation providerImpl installation r =
     r\<lparr>providerInstallations :=
         (providerInstallations r)(p_internalId providerImpl \<mapsto> installation)\<rparr>"

definition registerInstallation_dispose :: "ProviderImpl \<Rightarrow> registry \<Rightarrow> registry" where
  "registerInstallation_dispose providerImpl r =
     r\<lparr>providerInstallations := (providerInstallations r)(p_internalId providerImpl := None)\<rparr>"

definition registerUpdate :: "ProviderImpl \<Rightarrow> ProviderUpdate \<Rightarrow> registry \<Rightarrow> registry" where
  "registerUpdate providerImpl update r =
     r\<lparr>providerUpdates := (providerUpdates r)(p_internalId providerImpl \<mapsto> update)\<rparr>"

definition registerUpdate_dispose :: "ProviderImpl \<Rightarrow> registry \<Rightarrow> registry" where
  "registerUpdate_dispose providerImpl r =
     r\<lparr>providerUpdates := (providerUpdates r)(p_internalId providerImpl := None)\<rparr>"

definition registerAutostart :: "ProviderImpl \<Rightarrow> ProviderAutostart \<Rightarrow> registry \<Rightarrow> registry" where
  "registerAutostart providerImpl autostart r =
     r\<lparr>providerAutostarts :=
         AList.update (p_internalId providerImpl) autostart (providerAutostarts r)\<rparr>"

definition registerAutostart_dispose :: "ProviderImpl \<Rightarrow> registry \<Rightarrow> registry" where
  "registerAutostart_dispose providerImpl r =
     r\<lparr>providerAutostarts := AList.delete (p_internalId providerImpl) (providerAutostarts r)\<rparr>"

subsection \<open>Listeners\<close>

text \<open>
  \<open>indexOf\<close> gives the first index of the element, or -1 (here \<open>None\<close>);
  \<open>splice(index, 1)\<close> with \<open>index \<ge> 0\<close> removes the element at that index when there is
  one and leaves a shorter array as it is.
\<close>

fun indexOf :: "'a list \<Rightarrow> 'a \<Rightarrow> nat option" where
  "indexOf [] x = None"
| "indexOf (y # ys) x = (if y = x then Some 0 else map_option Suc (indexOf ys x))"

definition splice1 :: "nat \<Rightarrow> 'a list \<Rightarrow> 'a list" where
  "splice1 index xs = take index xs @ drop (Suc index) xs"

definition addProviderListener :: "listener \<Rightarrow> registry \<Rightarrow> registry" where
  "addProviderListener listener r = r\<lparr>listeners := listeners r @ [listener]\<rparr>"

definition removeProviderListener :: "listener \<Rightarrow> registry \<Rightarrow> registry" where
  "removeProviderListener listener r =
     (case indexOf (listeners r) listener of
        None \<Rightarrow> r
      | Some index \<Rightarrow> r\<lparr>listeners := splice1 index (listeners r)\<rparr>)"

definition addProviderLifecycleListener :: "listener \<Rightarrow> registry \<Rightarrow> registry" where
  "addProviderLifecycleListener listener r =
     r\<lparr>lifecycleListeners := lifecycleListeners r @ [listener]\<rparr>"

definition removeProviderLifecycleListener :: "listener \<Rightarrow> registry \<Rightarrow> registry" where
  "removeProviderLifecycleListener listener r =
     (case indexOf (lifecycleListeners r) listener of
        None \<Rightarrow> r
      | Some index \<Rightarrow> r\<lparr>lifecycleListeners := splice1 index (lifecycleListeners r)\<rparr>)"

definition addProviderContainerConnectionLifecycleListener ::
  "listener \<Rightarrow> registry \<Rightarrow> registry" where
  "addProviderContainerConnectionLifecycleListener listener r =
     r\<lparr>containerConnectionLifecycleListeners :=
         containerConnectionLifecycleListeners r @ [listener]\<rparr>"

text \<open>
  The index is looked up in \<open>containerConnectionLifecycleListeners\<close>, the splice is done
  on \<open>lifecycleListeners\<close>: so reads the source.
\<close>

definition removeProviderContainerConnectionLifecycleListener ::
  "listener \<Rightarrow> registry \<Rightarrow> registry" where
  "removeProviderContainerConnectionLifecycleListener listener r =
     (case indexOf (containerConnectionLifecycleListeners r) listener of
        None \<Rightarrow> r
      | Some index \<Rightarrow> r\<lparr>lifecycleListeners := splice1 index (lifecycleListeners r)\<rparr>)"

subsection \<open>Lookups that throw\<close>

definition getMatchingProviderLifecycle :: "registry \<Rightarrow> string \<Rightarrow> ProviderLifecycle outcome" where
  "getMatchingProviderLifecycle r providerId =
     (case providerLifecycles r providerId of
        None \<Rightarrow> throw_Error (''no provider lifecycle matching provider id '' @ providerId)
      | Some providerLifecycle \<Rightarrow> Inr providerLifecycle)"

definition getMatchingProvider :: "registry \<Rightarrow> string \<Rightarrow> ProviderImpl outcome" where
  "getMatchingProvider r providerId =
     (case map_of (providers r) providerId of
        None \<Rightarrow> throw_Error (''no provider matching provider id '' @ providerId)
      | Some provider \<Rightarrow> Inr provider)"

definition getMatchingLifecycleContext :: "registry \<Rightarrow> string \<Rightarrow> LifecycleContextImpl outcome" where
  "getMatchingLifecycleContext r providerId =
     (case providerLifecycleContexts r providerId of
        None \<Rightarrow> throw_Error (''no lifecycle context matching provider id '' @ providerId)
      | Some context \<Rightarrow> Inr context)"

definition getMatchingContainerConnectionFromProvider ::
  "registry \<Rightarrow> string \<Rightarrow> ProviderContainerConnectionInfo \<Rightarrow> ContainerProviderConnection outcome" where
  "getMatchingContainerConnectionFromProvider r internalProviderId providerContainerConnectionInfo =
     (case getMatchingProvider r internalProviderId of
        Inl e \<Rightarrow> Inl e
      | Inr provider \<Rightarrow>
          (case find (\<lambda>connection. conn_socketPath connection
                                    = ci_socketPath providerContainerConnectionInfo)
                     (p_containerConnections provider) of
             None \<Rightarrow> throw_Error (''no container connection matching provider id ''
                                   @ internalProviderId)
           | Some containerConnection \<Rightarrow> Inr containerConnection))"

definition getMatchingContainerLifecycleContext ::
  "registry \<Rightarrow> string \<Rightarrow> ProviderContainerConnectionInfo \<Rightarrow> LifecycleContextImpl outcome" where
  "getMatchingContainerLifecycleContext r providerId providerContainerConnectionInfo =
     (case getMatchingContainerConnectionFromProvider r providerId providerContainerConnectionInfo of
        Inl e \<Rightarrow> Inl e
      | Inr connection \<Rightarrow>
          (case connectionLifecycleContexts r (conn_ref connection) of
             None \<Rightarrow> throw_Error ''The connection does not have context to start''
           | Some context \<Rightarrow> Inr context))"

subsection \<open>Driving the provider lifecycle\<close>

text \<open>
  An \<open>async\<close> method returns a promise; a \<open>throw\<close> in its body rejects it. The model
  returns how the promise settles. An awaited call is taken to finish before anything
  else runs on the registry.
\<close>

definition intializeProviderLifecycle :: "string \<Rightarrow> registry \<Rightarrow> unit outcome \<times> registry" where
  "intializeProviderLifecycle providerId r =
     (case getMatchingProvider r providerId of
        Inl e \<Rightarrow> (Inl e, r)
      | Inr provider \<Rightarrow>
     (case getMatchingProviderLifecycle r providerId of
        Inl e \<Rightarrow> (Inl e, r)
      | Inr providerLifecycle \<Rightarrow>
     (case getMatchingLifecycleContext r providerId of
        Inl e \<Rightarrow> (Inl e, r)
      | Inr context \<Rightarrow>
     (case lc_initialize providerLifecycle of
        None \<Rightarrow> (Inr (), r)
      | Some initialize \<Rightarrow>
          (let r1 = notify_lifecycleListeners ''provider:before-initialize-lifecycle''
                      (getProviderInfo r provider) providerLifecycle r;
               r2 = emit [LifecycleInitialize providerLifecycle context] r1
           in case initialize of
                Inl e \<Rightarrow> (Inl e, r2)
              | Inr _ \<Rightarrow>
                  (Inr (), notify_lifecycleListeners ''provider:after-initialize-lifecycle''
                             (getProviderInfo r2 provider) providerLifecycle r2))))))"

definition startProviderLifecycle :: "string \<Rightarrow> registry \<Rightarrow> unit outcome \<times> registry" where
  "startProviderLifecycle providerId r =
     (case getMatchingProvider r providerId of
        Inl e \<Rightarrow> (Inl e, r)
      | Inr provider \<Rightarrow>
     (case getMatchingProviderLifecycle r providerId of
        Inl e \<Rightarrow> (Inl e, r)
      | Inr providerLifecycle \<Rightarrow>
     (case getMatchingLifecycleContext r providerId of
        Inl e \<Rightarrow> (Inl e, r)
      | Inr context \<Rightarrow>
          (let r1 = notify_lifecycleListeners ''provider:before-start-lifecycle''
                      (getProviderInfo r provider) providerLifecycle r;
               r2 = emit [LifecycleStart providerLifecycle context] r1
           in case lc_start providerLifecycle of
                Inl e \<Rightarrow> (Inl e, r2)
              | Inr _ \<Rightarrow>
                  (Inr (), notify_lifecycleListeners ''provider:after-start-lifecycle''
                             (getProviderInfo r2 provider) providerLifecycle r2)))))"

definition stopProviderLifecycle :: "string \<Rightarrow> registry \<Rightarrow> unit outcome \<times> registry" where
  "stopProviderLifecycle providerId r =
     (case getMatchingProvider r providerId of
        Inl e \<Rightarrow> (Inl e, r)
      | Inr provider \<Rightarrow>
     (case getMatchingProviderLifecycle r providerId of
        Inl e \<Rightarrow> (Inl e, r)
      | Inr providerLifecycle \<Rightarrow>
     (case getMatchingLifecycleContext r providerId of
        Inl e \<Rightarrow> (Inl e, r)
      | Inr context \<Rightarrow>
          (let r1 = notify_lifecycleListeners ''provider:before-stop-lifecycle''
                      (getProviderInfo r provider) providerLifecycle r;
               r2 = emit [LifecycleStop providerLifecycle context] r1
           in case lc_stop providerLifecycle of
                Inl e \<Rightarrow> (Inl e, r2)
              | Inr _ \<Rightarrow>
                  (Inr (), notify_lifecycleListeners ''provider:after-stop-lifecycle''
                             (getProviderInfo r2 provider) providerLifecycle r2)))))"

definition startProvider :: "string \<Rightarrow> registry \<Rightarrow> unit outcome \<times> registry" where
  "startProvider providerInternalId r =
     (case getMatchingProvider r providerInternalId of
        Inl e \<Rightarrow> (Inl e, r)
      | Inr provider \<Rightarrow>
          if providerLifecycles r providerInternalId \<noteq> None
          then startProviderLifecycle providerInternalId r
          else (case p_containerConnections provider of
                  [] \<Rightarrow> (throw_Error ''No container connection found for provider'', r)
                | connection # _ \<Rightarrow>
                    (case Option.bind (conn_lifecycle connection) cl_start of
                       None \<Rightarrow>
                         (throw_Error ''The container connection does not support start lifecycle'', r)
                     | Some start \<Rightarrow>
                         (case connectionLifecycleContexts r (conn_ref connection) of
                            None \<Rightarrow>
                              (throw_Error ''The connection does not have context to start'', r)
                          | Some context \<Rightarrow>
                              (start, emit [ConnectionStart connection context] r)))))"

definition initializeProvider :: "string \<Rightarrow> registry \<Rightarrow> unit outcome \<times> registry" where
  "initializeProvider providerInternalId r =
     (case getMatchingProvider r providerInternalId of
        Inl e \<Rightarrow> (Inl e, r)
      | Inr provider \<Rightarrow>
          if Option.bind (providerLifecycles r providerInternalId) lc_initialize \<noteq> None
          then intializeProviderLifecycle providerInternalId r
          else (case p_containerProviderConnectionFactory provider of
                  Some factory \<Rightarrow>
                    (fac_initialize factory,
                     emit [TelemetryTrack ''initializeProvider'' [(''name'', p_name provider)],
                           FactoryInitialize] r)
                | None \<Rightarrow>
                    (throw_Error ''No initialize implementation found for this provider'', r)))"

definition installProvider :: "string \<Rightarrow> registry \<Rightarrow> unit outcome \<times> registry" where
  "installProvider providerInternalId r =
     (case getMatchingProvider r providerInternalId of
        Inl e \<Rightarrow> (Inl e, r)
      | Inr provider \<Rightarrow>
          (case providerInstallations r providerInternalId of
             None \<Rightarrow> (throw_Error (''No matching installation for provider ''
                                    @ p_internalId provider), r)
           | Some providerInstall \<Rightarrow>
               (inst_install providerInstall,
                emit [TelemetryTrack ''installProvider'' [(''name'', p_name provider)],
                      InstallCall LoggerImpl] r)))"

definition updateProvider :: "string \<Rightarrow> registry \<Rightarrow> unit outcome \<times> registry" where
  "updateProvider providerInternalId r =
     (case getMatchingProvider r providerInternalId of
        Inl e \<Rightarrow> (Inl e, r)
      | Inr provider \<Rightarrow>
          (case providerUpdates r providerInternalId of
             None \<Rightarrow> (throw_Error (''No matching update for provider ''
                                    @ p_internalId provider), r)
           | Some providerUpdate \<Rightarrow>
               (upd_update providerUpdate,
                emit [TelemetryTrack ''updateProvider'' [(''name'', p_name provider)],
                      UpdateCall LoggerImpl] r)))"

subsection \<open>Autostart and pre-flight checks\<close>

text \<open>
  \<open>Promise.all\<close> is fulfilled with all the values when every promise is fulfilled, and is
  rejected as soon as one of them rejects, with the reason of that one. Nothing is
  cancelled: the other promises settle as they would have. The model has no clock; of
  several rejections it reports the one that comes first in the array.
\<close>

fun Promise_all :: "'a outcome list \<Rightarrow> 'a list outcome" where
  "Promise_all [] = Inr []"
| "Promise_all (Inl e # ps) = Inl e"
| "Promise_all (Inr v # ps) = (case Promise_all ps of Inl e \<Rightarrow> Inl e | Inr vs \<Rightarrow> Inr (v # vs))"

text \<open>
  \<open>autostartValues.map(autoStart => autoStart.start(new LoggerImpl()))\<close> calls
  \<open>start\<close> on the capabilities in the order of the map, before \<open>Promise.all\<close> sees
  any promise. A \<open>start\<close> that throws ends the map: the capabilities after it are not
  called. \<open>start_all\<close> gives the promises, or the thrown value, and the capabilities
  that were called.
\<close>

fun start_all ::
  "ProviderAutostart list \<Rightarrow> (thrown + unit outcome list) \<times> ProviderAutostart list" where
  "start_all [] = (Inr [], [])"
| "start_all (autoStart # rest) =
     (case as_start autoStart of
        ThrowsSync e \<Rightarrow> (Inl e, [autoStart])
      | ReturnsPromise promise \<Rightarrow>
          (case start_all rest of
             (Inl e, started) \<Rightarrow> (Inl e, autoStart # started)
           | (Inr promises, started) \<Rightarrow> (Inr (promise # promises), autoStart # started)))"

text \<open>
  \<open>runAutostart\<close> is \<open>async\<close>: a throw inside the map rejects the promise it returns.
\<close>

definition runAutostart :: "registry \<Rightarrow> unit list outcome \<times> registry" where
  "runAutostart r =
     (let autostartValues = map snd (providerAutostarts r)
      in case start_all autostartValues of
           (Inl e, started) \<Rightarrow>
             (Inl e, emit (map (\<lambda>autoStart. AutostartStart autoStart LoggerImpl) started) r)
         | (Inr promises, started) \<Rightarrow>
             (Promise_all promises,
              emit (map (\<lambda>autoStart. AutostartStart autoStart LoggerImpl) started) r))"

text \<open>
  The description reported for a thrown value:
  \<open>err instanceof Error ? err.message : typeof err === 'object' ? err?.toString() : 'unknown error'\<close>.
\<close>

fun thrown_description :: "thrown \<Rightarrow> string option" where
  "thrown_description (ErrorObj message) = Some message"
| "thrown_description (ObjectVal str) = str"
| "thrown_description Primitive = Some ''unknown error''"

text \<open>
  The loop \<open>for (const check of checks)\<close>. The callback object only records its calls.
\<close>

fun run_checks :: "InstallCheck list \<Rightarrow> registry \<Rightarrow> bool \<times> registry" where
  "run_checks [] r = (True, r)"
| "run_checks (check # checks) r =
     (let r1 = emit [StartCheck \<lparr> ev_name = chk_title check, ev_successful = None,
                                  ev_description = None, ev_docLinks = None \<rparr>,
                     CheckExecute check] r
      in case chk_execute check of
           Inr checkResult \<Rightarrow>
             (let r2 = emit [EndCheck \<lparr> ev_name = chk_title check,
                                        ev_successful = Some (cr_successful checkResult),
                                        ev_description = cr_description checkResult,
                                        ev_docLinks = cr_docLinks checkResult \<rparr>] r1
              in if \<not> cr_successful checkResult then (False, r2) else run_checks checks r2)
         | Inl err \<Rightarrow>
             (False, emit [ConsoleError err,
                           EndCheck \<lparr> ev_name = chk_title check,
                                      ev_successful = Some False,
                                      ev_description = thrown_description err,
                                      ev_docLinks = None \<rparr>] r1))"

text \<open>
  \<open>installOrUpdate\<close>: the update capability when \<open>runUpdateChecks\<close>, else the installation;
  all the method reads of it is the optional \<open>preflightChecks\<close>.
\<close>

definition installOrUpdate_preflightChecks ::
  "registry \<Rightarrow> string \<Rightarrow> bool \<Rightarrow> InstallCheck list option option" where
  "installOrUpdate_preflightChecks r providerInternalId runUpdateChecks =
     (if runUpdateChecks
      then map_option upd_preflightChecks (providerUpdates r providerInternalId)
      else map_option inst_preflightChecks (providerInstallations r providerInternalId))"

definition runPreflightChecks :: "string \<Rightarrow> bool \<Rightarrow> registry \<Rightarrow> bool outcome \<times> registry" where
  "runPreflightChecks providerInternalId runUpdateChecks r =
     (case installOrUpdate_preflightChecks r providerInternalId runUpdateChecks of
        None \<Rightarrow>
          (throw_Error (''No matching installation for provider '' @ providerInternalId), r)
      | Some None \<Rightarrow> (Inr False, r)
      | Some (Some checks) \<Rightarrow>
          (case run_checks checks r of (result, r') \<Rightarrow> (Inr result, r')))"

subsection \<open>Connections\<close>

definition createProviderConnection :: "string \<Rightarrow> registry \<Rightarrow> unit outcome \<times> registry" where
  "createProviderConnection internalProviderId r =
     (case getMatchingProvider r internalProviderId of
        Inl e \<Rightarrow> (Inl e, r)
      | Inr provider \<Rightarrow>
          (case p_containerProviderConnectionFactory provider of
             None \<Rightarrow>
               (throw_Error ''The provider does not support container connection creation'', r)
           | Some factory \<Rightarrow> (fac_create factory, emit [FactoryCreate] r)))"

definition startProviderConnection ::
  "string \<Rightarrow> ProviderContainerConnectionInfo \<Rightarrow> registry \<Rightarrow> unit outcome \<times> registry" where
  "startProviderConnection internalProviderId providerContainerConnectionInfo r =
     (case getMatchingContainerConnectionFromProvider r internalProviderId
             providerContainerConnectionInfo of
        Inl e \<Rightarrow> (Inl e, r)
      | Inr connection \<Rightarrow>
          (case Option.bind (conn_lifecycle connection) cl_start of
             None \<Rightarrow>
               (throw_Error ''The container connection does not support start lifecycle'', r)
           | Some start \<Rightarrow>
               (case connectionLifecycleContexts r (conn_ref connection) of
                  None \<Rightarrow> (throw_Error ''The connection does not have context to start'', r)
                | Some context \<Rightarrow> (start, emit [ConnectionStart connection context] r))))"

definition stopProviderConnection ::
  "string \<Rightarrow> ProviderContainerConnectionInfo \<Rightarrow> registry \<Rightarrow> unit outcome \<times> registry" where
  "stopProviderConnection internalProviderId providerContainerConnectionInfo r =
     (case getMatchingContainerConnectionFromProvider r internalProviderId
             providerContainerConnectionInfo of
        Inl e \<Rightarrow> (Inl e, r)
      | Inr connection \<Rightarrow>
          (case Option.bind (conn_lifecycle connection) cl_stop of
             None \<Rightarrow>
               (throw_Error ''The container connection does not support stop lifecycle'', r)
           | Some stop \<Rightarrow>
               (case connectionLifecycleContexts r (conn_ref connection) of
                  None \<Rightarrow> (throw_Error ''The connection does not have context to start'', r)
                | Some context \<Rightarrow> (stop, emit [ConnectionStop connection context] r))))"

definition deleteProviderConnection ::
  "string \<Rightarrow> ProviderContainerConnectionInfo \<Rightarrow> registry \<Rightarrow> unit outcome \<times> registry" where
  "deleteProviderConnection internalProviderId providerContainerConnectionInfo r =
     (case getMatchingContainerConnectionFromProvider r internalProviderId
             providerContainerConnectionInfo of
        Inl e \<Rightarrow> (Inl e, r)
      | Inr connection \<Rightarrow>
          (case Option.bind (conn_lifecycle connection) cl_delete of
             None \<Rightarrow>
               (throw_Error ''The container connection does not support delete lifecycle'', r)
           | Some delete \<Rightarrow>
               (delete,
                emit [TelemetryTrack ''deleteProviderConnection''
                        [(''name'', ci_name providerContainerConnectionInfo)],
                      ConnectionDelete connection] r)))"

definition onDidRegisterContainerConnection ::
  "ProviderImpl \<Rightarrow> ContainerProviderConnection \<Rightarrow> registry \<Rightarrow> registry" where
  "onDidRegisterContainerConnection provider containerProviderConnection r =
     (let r1 = r\<lparr>connectionLifecycleContexts :=
                   (connectionLifecycleContexts r)
                     (conn_ref containerProviderConnection \<mapsto> LifecycleContextImpl)\<rparr>
      in notify_connectionListeners ''provider-container-connection:register''
           (getProviderInfo r1 provider)
           (getProviderContainerConnectionInfo containerProviderConnection) r1)"

definition onDidChangeContainerProviderConnectionStatus ::
  "ProviderImpl \<Rightarrow> ContainerProviderConnection \<Rightarrow> registry \<Rightarrow> registry" where
  "onDidChangeContainerProviderConnectionStatus provider containerConnection r =
     notify_connectionListeners ''provider-container-connection:update-status''
       (getProviderInfo r provider)
       (getProviderContainerConnectionInfo containerConnection) r"

definition onDidUnregisterContainerConnection ::
  "ProviderImpl \<Rightarrow> ContainerProviderConnection \<Rightarrow> registry \<Rightarrow> registry" where
  "onDidUnregisterContainerConnection provider containerConnection r =
     notify_connectionListeners ''provider-container-connection:unregister''
       (getProviderInfo r provider)
       (getProviderContainerConnectionInfo containerConnection) r"

subsection \<open>The list of providers\<close>

text \<open>
  \<open>Array.prototype.sort\<close> is stable, and with a consistent comparison function every
  stable sort gives the same array; it is modelled by insertion. \<open>compareFn a b \<le> 0\<close>
  keeps \<open>a\<close> before \<open>b\<close>.
\<close>

fun insert_sorted :: "('a \<Rightarrow> 'a \<Rightarrow> int) \<Rightarrow> 'a \<Rightarrow> 'a list \<Rightarrow> 'a list" where
  "insert_sorted compareFn x [] = [x]"
| "insert_sorted compareFn x (y # ys) =
     (if compareFn x y \<le> 0 then x # y # ys else y # insert_sorted compareFn x ys)"

definition Array_sort :: "('a \<Rightarrow> 'a \<Rightarrow> int) \<Rightarrow> 'a list \<Rightarrow> 'a list" where
  "Array_sort compareFn xs = foldr (insert_sorted compareFn) xs []"

text \<open>
  \<open>String.prototype.localeCompare\<close> belongs to the JavaScript engine: a negative, zero or
  positive number as the receiver sorts before, with or after the argument in the
  collation of the locale. The registry takes it as a parameter here.
\<close>

definition getProviderInfos :: "(string \<Rightarrow> string \<Rightarrow> int) \<Rightarrow> registry \<Rightarrow> ProviderInfo list" where
  "getProviderInfos localeCompare r =
     Array_sort (\<lambda>provider1 provider2. localeCompare (pi_name provider2) (pi_name provider1))
       (map (\<lambda>provider. getProviderInfo r provider) (map snd (providers r)))"

text \<open>
  A comparison to run \<open>getProviderInfos\<close> with: strings compared code unit by code unit.
\<close>

fun codeUnitCompare :: "string \<Rightarrow> string \<Rightarrow> int" where
  "codeUnitCompare [] [] = 0"
| "codeUnitCompare [] (y # ys) = - 1"
| "codeUnitCompare (x # xs) [] = 1"
| "codeUnitCompare (x # xs) (y # ys) =
     (if (of_char x :: nat) < of_char y then - 1
      else if (of_char y :: nat) < of_char x then 1
      else codeUnitCompare xs ys)"

subsection \<open>The reconciliation timer\<close>

text \<open>
  The body of \<open>setInterval\<close>, for one key of \<open>providers\<close>. \<open>poll providerKey\<close> is what the
  call \<open>providerLifecycle.status()\<close> made for that key returns in this tick. The provider
  is an object shared with the map, so \<open>updateStatus\<close> changes the stored entry in place.
\<close>

definition reconcile_provider :: "(string \<Rightarrow> ProviderStatus) \<Rightarrow> string \<Rightarrow> registry \<Rightarrow> registry" where
  "reconcile_provider poll providerKey r =
     (case (map_of (providers r) providerKey, providerLifecycles r providerKey) of
        (Some provider, Some providerLifecycle) \<Rightarrow>
          (let status = poll providerKey
           in if Some status \<noteq> providerStatuses r providerKey
              then (let provider' = updateStatus status provider;
                        r1 = r\<lparr>providers := AList.update providerKey provider' (providers r)\<rparr>;
                        r2 = notify_listeners ''provider:update-status''
                               (getProviderInfo r1 provider') r1
                    in r2\<lparr>providerStatuses := (providerStatuses r2)(providerKey \<mapsto> status)\<rparr>)
              else r)
      | _ \<Rightarrow> r)"

definition tick :: "(string \<Rightarrow> ProviderStatus) \<Rightarrow> registry \<Rightarrow> registry" where
  "tick poll r = fold (reconcile_provider poll) (map fst (providers r)) r"

subsection \<open>Sessions\<close>

text \<open>
  A session of the registry is a sequence of calls of its methods, of the handles they
  returned, and of timer ticks. \<open>run\<close> gives the providers that \<open>createProvider\<close> returned,
  in order, and the registry at the end.
\<close>

datatype call =
    CreateProvider ProviderOptions
  | DisposeProvider ProviderImpl
  | RegisterLifecycle ProviderImpl ProviderLifecycle
  | DisposeLifecycle ProviderImpl ProviderLifecycle
  | RegisterInstallation ProviderImpl ProviderInstallation
  | DisposeInstallation ProviderImpl
  | RegisterUpdate ProviderImpl ProviderUpdate
  | DisposeUpdate ProviderImpl
  | RegisterAutostart ProviderImpl ProviderAutostart
  | DisposeAutostart ProviderImpl
  | AddProviderListener listener
  | RemoveProviderListener listener
  | AddProviderLifecycleListener listener
  | RemoveProviderLifecycleListener listener
  | AddProviderContainerConnectionLifecycleListener listener
  | RemoveProviderContainerConnectionLifecycleListener listener
  | IntializeProviderLifecycle string
  | StartProviderLifecycle string
  | StopProviderLifecycle string
  | StartProvider string
  | InitializeProvider string
  | InstallProvider string
  | UpdateProvider string
  | RunAutostart
  | RunPreflightChecks string bool
  | CreateProviderConnection string
  | StartProviderConnection string ProviderContainerConnectionInfo
  | StopProviderConnection string ProviderContainerConnectionInfo
  | DeleteProviderConnection string ProviderContainerConnectionInfo
  | OnDidRegisterContainerConnection ProviderImpl ContainerProviderConnection
  | OnDidChangeContainerProviderConnectionStatus ProviderImpl ContainerProviderConnection
  | OnDidUnregisterContainerConnection ProviderImpl ContainerProviderConnection
  | Tick "string \<Rightarrow> ProviderStatus"

fun exec :: "call \<Rightarrow> registry \<Rightarrow> registry" where
  "exec (CreateProvider opts) r = snd (createProvider opts r)"
| "exec (DisposeProvider p) r = disposeProvider p r"
| "exec (RegisterLifecycle p lc) r = registerLifecycle p lc r"
| "exec (DisposeLifecycle p lc) r = registerLifecycle_dispose p lc r"
| "exec (RegisterInstallation p i) r = registerInstallation p i r"
| "exec (DisposeInstallation p) r = registerInstallation_dispose p r"
| "exec (RegisterUpdate p u) r = registerUpdate p u r"
| "exec (DisposeUpdate p) r = registerUpdate_dispose p r"
| "exec (RegisterAutostart p a) r = registerAutostart p a r"
| "exec (DisposeAutostart p) r = registerAutostart_dispose p r"
| "exec (AddProviderListener l) r = addProviderListener l r"
| "exec (RemoveProviderListener l) r = removeProviderListener l r"
| "exec (AddProviderLifecycleListener l) r = addProviderLifecycleListener l r"
| "exec (RemoveProviderLifecycleListener l) r = removeProviderLifecycleListener l r"
| "exec (AddProviderContainerConnectionLifecycleListener l) r =
     addProviderContainerConnectionLifecycleListener l r"
| "exec (RemoveProviderContainerConnectionLifecycleListener l) r =
     removeProviderContainerConnectionLifecycleListener l r"
| "exec (IntializeProviderLifecycle i) r = snd (intializeProviderLifecycle i r)"
| "exec (StartProviderLifecycle i) r = snd (startProviderLifecycle i r)"
| "exec (StopProviderLifecycle i) r = snd (stopProviderLifecycle i r)"
| "exec (StartProvider i) r = snd (startProvider i r)"
| "exec (InitializeProvider i) r = snd (initializeProvider i r)"
| "exec (InstallProvider i) r = snd (installProvider i r)"
| "exec (UpdateProvider i) r = snd (updateProvider i r)"
| "exec RunAutostart r = snd (runAutostart r)"
| "exec (RunPreflightChecks i u) r = snd (runPreflightChecks i u r)"
| "exec (CreateProviderConnection i) r = snd (createProviderConnection i r)"
| "exec (StartProviderConnection i c) r = snd (startProviderConnection i c r)"
| "exec (StopProviderConnection i c) r = snd (stopProviderConnection i c r)"
| "exec (DeleteProviderConnection i c) r = snd (deleteProviderConnection i c r)"
| "exec (OnDidRegisterContainerConnection p c) r = onDidRegisterContainerConnection p c r"
| "exec (OnDidChangeContainerProviderConnectionStatus p c) r =
     onDidChangeContainerProviderConnectionStatus p c r"
| "exec (OnDidUnregisterContainerConnection p c) r = onDidUnregisterContainerConnection p c r"
| "exec (Tick poll) r = tick poll r"

fun run :: "call list \<Rightarrow> registry \<Rightarrow> ProviderImpl list \<times> registry" where
  "run [] r = ([], r)"
| "run (CreateProvider opts # cs) r =
     (case createProvider opts r of
        (providerImpl, r') \<Rightarrow>
          (case run cs r' of (created, r'') \<Rightarrow> (providerImpl # created, r'')))"
| "run (c # cs) r = run cs (exec c r)"

text \<open>The effects a call added to the trace.\<close>

definition new_effects :: "registry \<Rightarrow> registry \<Rightarrow> effect list" where
  "new_effects r r' = drop (length (trace r)) (trace r')"

subsection \<open>Notions used in the statements\<close>

text \<open>
  The registry is keyed by internal id when the keys of \<open>providers\<close> are distinct (a
  \<open>Map\<close> has each key once) and every provider is stored under its own internal id.
\<close>

definition keyed_by_internalId :: "registry \<Rightarrow> bool" where
  "keyed_by_internalId r \<longleftrightarrow>
     distinct (map fst (providers r))
     \<and> list_all (\<lambda>(providerKey, provider). p_internalId provider = providerKey) (providers r)"

text \<open>The \<open>provider:update-status\<close> calls about one provider among some effects.\<close>

fun is_update_status_of :: "string \<Rightarrow> effect \<Rightarrow> bool" where
  "is_update_status_of internalId (ListenerCall listener name info) =
     (name = ''provider:update-status'' \<and> pi_internalId info = internalId)"
| "is_update_status_of internalId _ = False"

definition update_status_calls :: "string \<Rightarrow> effect list \<Rightarrow> effect list" where
  "update_status_calls internalId es = filter (is_update_status_of internalId) es"

text \<open>
  What one pre-flight check contributes to the trace when it is run, and whether the
  loop goes on after it.
\<close>

definition check_succeeds :: "InstallCheck \<Rightarrow> bool" where
  "check_succeeds check =
     (case chk_execute check of Inl err \<Rightarrow> False | Inr checkResult \<Rightarrow> cr_successful checkResult)"

definition check_effects :: "InstallCheck \<Rightarrow> effect list" where
  "check_effects check =
     [StartCheck \<lparr> ev_name = chk_title check, ev_successful = None,
                   ev_description = None, ev_docLinks = None \<rparr>,
      CheckExecute check]
     @ (case chk_execute check of
          Inr checkResult \<Rightarrow>
            [EndCheck \<lparr> ev_name = chk_title check,
                        ev_successful = Some (cr_successful checkResult),
                        ev_description = cr_description checkResult,
                        ev_docLinks = cr_docLinks checkResult \<rparr>]
        | Inl err \<Rightarrow>
            [ConsoleError err,
             EndCheck \<lparr> ev_name = chk_title check, ev_successful = Some False,
                        ev_description = thrown_description err, ev_docLinks = None \<rparr>])"

text \<open>The effects that only the provider lifecycle methods produce.\<close>

fun is_provider_lifecycle_effect :: "effect \<Rightarrow> bool" where
  "is_provider_lifecycle_effect (LifecycleListenerCall listener name info lifecycle) = True"
| "is_provider_lifecycle_effect (LifecycleInitialize lifecycle context) = True"
| "is_provider_lifecycle_effect (LifecycleStart lifecycle context) = True"
| "is_provider_lifecycle_effect (LifecycleStop lifecycle context) = True"
| "is_provider_lifecycle_effect _ = False"

text \<open>Whether \<open>start\<close> of an autostart capability returns a promise.\<close>

definition returns_promise :: "ProviderAutostart \<Rightarrow> bool" where
  "returns_promise autoStart =
     (case as_start autoStart of ThrowsSync e \<Rightarrow> False | ReturnsPromise promise \<Rightarrow> True)"

subsection \<open>Sample values\<close>

definition podman_options :: ProviderOptions where
  "podman_options =
     \<lparr> po_id = ''podman'', po_name = ''Podman'', po_status = ''not-installed'',
       po_version = Some ''4.3.1'', po_images = [], po_links = [], po_detectionChecks = [] \<rparr>"

definition crc_options :: ProviderOptions where
  "crc_options =
     \<lparr> po_id = ''crc'', po_name = ''CRC'', po_status = ''unknown'',
       po_version = None, po_images = [''./icon.png''], po_links = [],
       po_detectionChecks = [] \<rparr>"

definition docker_options :: ProviderOptions where
  "docker_options =
     \<lparr> po_id = ''docker'', po_name = ''Docker'', po_status = ''ready'',
       po_version = None, po_images = [], po_links = [], po_detectionChecks = [] \<rparr>"

definition crc_lifecycle :: ProviderLifecycle where
  "crc_lifecycle = \<lparr> lc_initialize = None, lc_start = Inr (), lc_stop = Inr () \<rparr>"

text \<open>The registry after \<open>createProvider(podman_options)\<close>, and the provider returned.\<close>

definition podman_provider :: ProviderImpl where
  "podman_provider = fst (createProvider podman_options new_ProviderRegistry)"

definition registry_with_podman :: registry where
  "registry_with_podman = snd (createProvider podman_options new_ProviderRegistry)"

definition podman_connection :: ContainerProviderConnection where
  "podman_connection =
     \<lparr> conn_ref = 0, conn_name = ''podman-machine-default'', conn_type = ''podman'',
       conn_socketPath = ''/run/podman/podman.sock'', conn_status = ''started'',
       conn_lifecycle = Some \<lparr> cl_start = Some (Inr ()), cl_stop = Some (Inr ()),
                                cl_delete = Some (Inl (ErrorObj ''machine is running'')) \<rparr> \<rparr>"

text \<open>
  The provider once its connection is in \<open>containerConnections\<close>, in a registry that has
  no lifecycle context for the connection, and in the registry after
  \<open>onDidRegisterContainerConnection\<close>, which creates the context.
\<close>

definition podman_provider_connected :: ProviderImpl where
  "podman_provider_connected = podman_provider\<lparr>p_containerConnections := [podman_connection]\<rparr>"

definition registry_connected_no_context :: registry where
  "registry_connected_no_context =
     registry_with_podman\<lparr>providers := [(''0'', podman_provider_connected)]\<rparr>"

definition registry_connected :: registry where
  "registry_connected =
     onDidRegisterContainerConnection podman_provider_connected podman_connection
       registry_connected_no_context"

definition session_create_dispose_create :: "call list" where
  "session_create_dispose_create =
     [CreateProvider podman_options, DisposeProvider podman_provider, CreateProvider crc_options]"

definition check_ok :: "string \<Rightarrow> InstallCheck" where
  "check_ok title =
     \<lparr> chk_title = title,
       chk_execute = Inr \<lparr> cr_successful = True, cr_description = None, cr_docLinks = None \<rparr> \<rparr>"

definition check_throwing :: "string \<Rightarrow> string \<Rightarrow> InstallCheck" where
  "check_throwing title message = \<lparr> chk_title = title, chk_execute = Inl (ErrorObj message) \<rparr>"

definition three_checks :: "InstallCheck list" where
  "three_checks = [check_ok ''WinBit'', check_throwing ''WinVer'' ''wmic failed'', check_ok ''WinMemory'']"

definition registry_with_installation :: registry where
  "registry_with_installation =
     registerInstallation podman_provider
       \<lparr> inst_preflightChecks = Some three_checks, inst_install = Inr () \<rparr>
       (registerUpdate podman_provider
          \<lparr> upd_version = ''4.4.0'', upd_preflightChecks = None, upd_update = Inr () \<rparr>
          registry_with_podman)"

definition autostart_resolving :: ProviderAutostart where
  "autostart_resolving = \<lparr> as_ref = 0, as_start = ReturnsPromise (Inr ()) \<rparr>"

definition autostart_rejecting :: ProviderAutostart where
  "autostart_rejecting =
     \<lparr> as_ref = 1, as_start = ReturnsPromise (Inl (ErrorObj ''cannot start'')) \<rparr>"

text \<open>A capability whose \<open>start\<close> is a plain function that throws.\<close>

definition autostart_throwing :: ProviderAutostart where
  "autostart_throwing = \<lparr> as_ref = 2, as_start = ThrowsSync (ErrorObj ''cannot start'') \<rparr>"

definition registry_with_throwing_autostart :: registry where
  "registry_with_throwing_autostart =
     new_ProviderRegistry\<lparr>providerAutostarts :=
       [(''0'', autostart_throwing), (''1'', autostart_resolving)]\<rparr>"

definition registry_with_autostarts :: registry where
  "registry_with_autostarts =
     new_ProviderRegistry\<lparr>providerAutostarts :=
       [(''0'', autostart_rejecting), (''1'', autostart_resolving)]\<rparr>"

text \<open>A registry that tracks three providers, created as Docker, Podman, CRC.\<close>

definition registry_three_providers :: registry where
  "registry_three_providers =
     new_ProviderRegistry
       \<lparr> count := 3,
         providers := [(''0'', new_ProviderImpl ''0'' docker_options),
                       (''1'', new_ProviderImpl ''1'' podman_options),
                       (''2'', new_ProviderImpl ''2'' crc_options)] \<rparr>"

text \<open>
  A registry with one listener and one provider, CRC, with a lifecycle; and the session
  that builds it and then has three ticks in which \<open>status()\<close> returns A, A and B.
\<close>

definition crc_provider :: ProviderImpl where
  "crc_provider = fst (createProvider crc_options (addProviderListener 1 new_ProviderRegistry))"

definition registry_crc_lifecycle :: registry where
  "registry_crc_lifecycle =
     registerLifecycle crc_provider crc_lifecycle
       (snd (createProvider crc_options (addProviderListener 1 new_ProviderRegistry)))"

definition session_status_A_A_B :: "call list" where
  "session_status_A_A_B =
     [AddProviderListener 1,
      CreateProvider crc_options,
      RegisterLifecycle crc_provider crc_lifecycle,
      Tick (\<lambda>providerKey. ''A''), Tick (\<lambda>providerKey. ''A''), Tick (\<lambda>providerKey. ''B'')]"

text \<open>The Podman provider with a lifecycle registered.\<close>

definition registry_podman_lifecycle :: registry where
  "registry_podman_lifecycle = registerLifecycle podman_provider crc_lifecycle registry_with_podman"

section \<open>Properties\<close>

subsection \<open>Internal ids\<close>

lemma digit_char_inj: "a < 10 \<Longrightarrow> b < 10 \<Longrightarrow> digit_char a = digit_char b \<Longrightarrow> a = b"
proof -
  assume a: "a < 10" and b: "b < 10" and eq: "digit_char a = digit_char b"
  from eq have "(of_char (char_of (48 + a)) :: nat) = of_char (char_of (48 + b))"
    by (simp add: digit_char_def)
  with a b show "a = b" by simp
qed

lemma string_of_count_nonempty: "string_of_count n \<noteq> []"
  by (subst string_of_count.simps) simp

lemma string_of_count_inj: "string_of_count n = string_of_count m \<Longrightarrow> n = m"
proof (induction n arbitrary: m rule: string_of_count.induct)
  case (1 n)
  show ?case
  proof (cases "n < 10")
    case True
    show ?thesis
    proof (cases "m < 10")
      case mTrue: True
      from "1.prems" True mTrue have "digit_char n = digit_char m"
        by (simp add: string_of_count.simps [of n] string_of_count.simps [of m])
      with True mTrue show ?thesis using digit_char_inj by blast
    next
      case False
      from "1.prems" True False show ?thesis
        using string_of_count_nonempty [of "m div 10"]
        by (simp add: string_of_count.simps [of n] string_of_count.simps [of m])
    qed
  next
    case False
    show ?thesis
    proof (cases "m < 10")
      case True
      from "1.prems" True False show ?thesis
        using string_of_count_nonempty [of "n div 10"]
        by (simp add: string_of_count.simps [of n] string_of_count.simps [of m])
    next
      case mFalse: False
      from "1.prems" False mFalse
      have e1: "string_of_count (n div 10) = string_of_count (m div 10)"
        and e2: "digit_char (n mod 10) = digit_char (m mod 10)"
        by (simp_all add: string_of_count.simps [of n] string_of_count.simps [of m])
      from "1.IH" [OF False e1] have d: "n div 10 = m div 10" .
      from e2 have md: "n mod 10 = m mod 10" by (intro digit_char_inj) simp_all
      from d md show ?thesis by (metis div_mult_mod_eq)
    qed
  qed
qed

lemma count_emit [simp]: "count (emit es r) = count r"
  by (simp add: emit_def)

lemma count_notify [simp]:
  "count (notify_listeners n i r) = count r"
  "count (notify_lifecycleListeners n i l r) = count r"
  "count (notify_connectionListeners n i c r) = count r"
  by (simp_all add: notify_listeners_def notify_lifecycleListeners_def
        notify_connectionListeners_def)

lemma count_reconcile [simp]: "count (reconcile_provider poll k r) = count r"
  by (simp add: reconcile_provider_def Let_def split: option.splits)

lemma count_tick [simp]: "count (tick poll r) = count r"
proof -
  have "count (fold (reconcile_provider poll) ks r) = count r" for ks
    by (induction ks arbitrary: r) simp_all
  then show ?thesis by (simp add: tick_def)
qed

lemma count_run_checks [simp]: "count (snd (run_checks cs r)) = count r"
  by (induction cs arbitrary: r) (simp_all add: Let_def split: sum.splits)

lemma count_run_checks_pair: "run_checks cs r = (b, r') \<Longrightarrow> count r' = count r"
  using count_run_checks [of cs r] by simp

lemma count_createProvider:
  "count (snd (createProvider opts r)) = count r + 1"
  "p_internalId (fst (createProvider opts r)) = string_of_count (count r)"
  by (simp_all add: createProvider_def Let_def new_ProviderImpl_def)

text \<open>Only \<open>createProvider\<close> touches the counter.\<close>

lemma count_exec:
  assumes "\<And>opts. c \<noteq> CreateProvider opts"
  shows "count (exec c r) = count r"
proof (cases c)
  case (CreateProvider opts)
  with assms show ?thesis by blast
qed (auto simp add: disposeProvider_def registerLifecycle_def registerLifecycle_dispose_def
        registerInstallation_def registerInstallation_dispose_def registerUpdate_def
        registerUpdate_dispose_def registerAutostart_def registerAutostart_dispose_def
        addProviderListener_def removeProviderListener_def addProviderLifecycleListener_def
        removeProviderLifecycleListener_def addProviderContainerConnectionLifecycleListener_def
        removeProviderContainerConnectionLifecycleListener_def intializeProviderLifecycle_def
        startProviderLifecycle_def stopProviderLifecycle_def startProvider_def
        initializeProvider_def installProvider_def updateProvider_def runAutostart_def
        runPreflightChecks_def createProviderConnection_def startProviderConnection_def
        stopProviderConnection_def deleteProviderConnection_def
        onDidRegisterContainerConnection_def onDidChangeContainerProviderConnectionStatus_def
        onDidUnregisterContainerConnection_def Let_def
        split: option.splits sum.splits list.splits prod.splits
        dest: count_run_checks_pair)

lemma run_internalIds:
  "map p_internalId (fst (run cs r))
     = map string_of_count [count r ..< count r + length (fst (run cs r))]
   \<and> count (snd (run cs r)) = count r + length (fst (run cs r))"
proof (induction cs arbitrary: r)
  case Nil
  show ?case by simp
next
  case (Cons c cs)
  show ?case
  proof (cases "\<exists>opts. c = CreateProvider opts")
    case True
    then obtain opts where c: "c = CreateProvider opts" by blast
    obtain p r' where cp: "createProvider opts r = (p, r')" by (cases "createProvider opts r")
    obtain ps r'' where rn: "run cs r' = (ps, r'')" by (cases "run cs r'")
    from count_createProvider [of opts r] cp
    have cr': "count r' = count r + 1" and pid: "p_internalId p = string_of_count (count r)"
      by simp_all
    from Cons.IH [of r'] rn cr'
    have ih: "map p_internalId ps = map string_of_count [count r + 1 ..< count r + 1 + length ps]"
      and ihc: "count r'' = count r + 1 + length ps"
      by simp_all
    have "[count r ..< count r + Suc (length ps)]
            = count r # [count r + 1 ..< count r + 1 + length ps]"
      by (subst upt_rec) simp
    with c cp rn pid ih ihc show ?thesis by simp
  next
    case False
    then have ne: "\<And>opts. c \<noteq> CreateProvider opts" by blast
    have "run (c # cs) r = run cs (exec c r)"
    proof (cases c)
      case (CreateProvider opts)
      with ne show ?thesis by blast
    qed simp_all
    with Cons.IH [of "exec c r"] count_exec [OF ne, of r] show ?thesis by simp
  qed
qed

subsection \<open>Traces\<close>

lemma trace_emit [simp]: "trace (emit es r) = trace r @ es"
  by (simp add: emit_def)

lemma new_effects_self [simp]: "new_effects r r = []"
  by (simp add: new_effects_def)

lemma new_effects_emit [simp]: "new_effects r (emit es r) = es"
  by (simp add: new_effects_def)

lemma new_effects_append: "trace r' = trace r @ es \<Longrightarrow> new_effects r r' = es"
  by (simp add: new_effects_def)

lemma getProviderInfo_cong:
  "providerInstallations r' = providerInstallations r \<Longrightarrow>
   providerUpdates r' = providerUpdates r \<Longrightarrow>
   providerLifecycles r' = providerLifecycles r \<Longrightarrow>
   getProviderInfo r' p = getProviderInfo r p"
  by (simp add: getProviderInfo_def)

subsection \<open>Connection listeners\<close>

lemma indexOf_append_self: "\<exists>index. indexOf (xs @ [x]) x = Some index \<and> index \<le> length xs"
  by (induction xs) auto

lemma removeConnectionListener_keeps_list:
  "containerConnectionLifecycleListeners (removeProviderContainerConnectionLifecycleListener l r)
     = containerConnectionLifecycleListeners r"
  by (simp add: removeProviderContainerConnectionLifecycleListener_def split: option.splits)

text \<open>
  Claim C10. A listener is added with \<open>addProviderContainerConnectionLifecycleListener\<close> and
  then removed with \<open>removeProviderContainerConnectionLifecycleListener\<close>. The list of
  container-connection listeners still ends with it; what was spliced, at the index found
  in that list, is the list of provider-lifecycle listeners. The next \<open>register\<close>,
  \<open>update-status\<close> and \<open>unregister\<close> notifications call every listener of the list,
  the removed one included.
\<close>

theorem connection_listener_not_removed:
  "(let r2 = removeProviderContainerConnectionLifecycleListener l
              (addProviderContainerConnectionLifecycleListener l r)
    in containerConnectionLifecycleListeners r2 = containerConnectionLifecycleListeners r @ [l]
    \<and> (\<exists>index. indexOf (containerConnectionLifecycleListeners r @ [l]) l = Some index
           \<and> lifecycleListeners r2 = splice1 index (lifecycleListeners r))
    \<and> new_effects r2 (onDidRegisterContainerConnection p c r2)
        = map (\<lambda>listener. ConnectionListenerCall listener ''provider-container-connection:register''
                 (getProviderInfo r p) (getProviderContainerConnectionInfo c))
              (containerConnectionLifecycleListeners r @ [l])
    \<and> new_effects r2 (onDidChangeContainerProviderConnectionStatus p c r2)
        = map (\<lambda>listener. ConnectionListenerCall listener ''provider-container-connection:update-status''
                 (getProviderInfo r p) (getProviderContainerConnectionInfo c))
              (containerConnectionLifecycleListeners r @ [l])
    \<and> new_effects r2 (onDidUnregisterContainerConnection p c r2)
        = map (\<lambda>listener. ConnectionListenerCall listener ''provider-container-connection:unregister''
                 (getProviderInfo r p) (getProviderContainerConnectionInfo c))
              (containerConnectionLifecycleListeners r @ [l]))"
proof -
  define r2 where "r2 = removeProviderContainerConnectionLifecycleListener l
                   (addProviderContainerConnectionLifecycleListener l r)"
  obtain index where ix: "indexOf (containerConnectionLifecycleListeners r @ [l]) l = Some index"
    using indexOf_append_self [of "containerConnectionLifecycleListeners r" l] by blast
  have r2: "r2 = (addProviderContainerConnectionLifecycleListener l r)
                   \<lparr>lifecycleListeners := splice1 index (lifecycleListeners r)\<rparr>"
    using ix by (simp add: r2_def removeProviderContainerConnectionLifecycleListener_def
                  addProviderContainerConnectionLifecycleListener_def)
  have ls: "containerConnectionLifecycleListeners r2 = containerConnectionLifecycleListeners r @ [l]"
    by (simp add: r2 addProviderContainerConnectionLifecycleListener_def)
  have info: "getProviderInfo r2 p = getProviderInfo r p"
    by (rule getProviderInfo_cong)
       (simp_all add: r2 addProviderContainerConnectionLifecycleListener_def)
  have info': "getProviderInfo (r2\<lparr>connectionLifecycleContexts := m\<rparr>) p = getProviderInfo r p" for m
    by (rule getProviderInfo_cong)
       (simp_all add: r2 addProviderContainerConnectionLifecycleListener_def)
  have a: "lifecycleListeners r2 = splice1 index (lifecycleListeners r)"
    by (simp add: r2 addProviderContainerConnectionLifecycleListener_def)
  have b: "new_effects r2 (onDidRegisterContainerConnection p c r2)
        = map (\<lambda>listener. ConnectionListenerCall listener ''provider-container-connection:register''
                 (getProviderInfo r p) (getProviderContainerConnectionInfo c))
              (containerConnectionLifecycleListeners r @ [l])"
    by (rule new_effects_append)
       (simp add: onDidRegisterContainerConnection_def notify_connectionListeners_def Let_def
          info' ls)
  have c: "new_effects r2 (onDidChangeContainerProviderConnectionStatus p c r2)
        = map (\<lambda>listener. ConnectionListenerCall listener ''provider-container-connection:update-status''
                 (getProviderInfo r p) (getProviderContainerConnectionInfo c))
              (containerConnectionLifecycleListeners r @ [l])"
    by (simp add: onDidChangeContainerProviderConnectionStatus_def notify_connectionListeners_def
          info ls)
  have d: "new_effects r2 (onDidUnregisterContainerConnection p c r2)
        = map (\<lambda>listener. ConnectionListenerCall listener ''provider-container-connection:unregister''
                 (getProviderInfo r p) (getProviderContainerConnectionInfo c))
              (containerConnectionLifecycleListeners r @ [l])"
    by (simp add: onDidUnregisterContainerConnection_def notify_connectionListeners_def
          info ls)
  from ls ix a b c d show ?thesis unfolding Let_def r2_def [symmetric] by blast
qed

text \<open>On the registry with the connected Podman provider, with listener 7.\<close>

theorem connection_listener_not_removed_witness:
  "containerConnectionLifecycleListeners
     (removeProviderContainerConnectionLifecycleListener 7
        (addProviderContainerConnectionLifecycleListener 7 registry_connected)) = [7]
   \<and> new_effects
        (removeProviderContainerConnectionLifecycleListener 7
           (addProviderContainerConnectionLifecycleListener 7 registry_connected))
        (onDidUnregisterContainerConnection podman_provider_connected podman_connection
           (removeProviderContainerConnectionLifecycleListener 7
              (addProviderContainerConnectionLifecycleListener 7 registry_connected)))
       = [ConnectionListenerCall 7 ''provider-container-connection:unregister''
            (getProviderInfo registry_connected podman_provider_connected)
            (getProviderContainerConnectionInfo podman_connection)]"
proof -
  have e: "containerConnectionLifecycleListeners registry_connected = []" by code_simp
  from connection_listener_not_removed
         [of 7 registry_connected podman_provider_connected podman_connection] e
  show ?thesis by (simp add: Let_def)
qed

subsection \<open>Registering and disposing a lifecycle\<close>

text \<open>
  Claim C6. For a provider that the registry tracks, \<open>registerLifecycle\<close> followed by
  disposing the returned handle leaves neither a lifecycle nor a lifecycle context under
  the provider's internal id, and \<open>startProviderLifecycle\<close> then throws the not-found
  error of the lifecycle and changes nothing.
\<close>

theorem registerLifecycle_dispose_roundtrip:
  assumes tracked: "map_of (providers r) (p_internalId providerImpl) \<noteq> None"
  shows "(let r2 = registerLifecycle_dispose providerImpl lifecycle
                     (registerLifecycle providerImpl lifecycle r)
          in providerLifecycles r2 (p_internalId providerImpl) = None
     \<and> providerLifecycleContexts r2 (p_internalId providerImpl) = None
     \<and> startProviderLifecycle (p_internalId providerImpl) r2
         = (Inl (ErrorObj (''no provider lifecycle matching provider id ''
                            @ p_internalId providerImpl)), r2))"
proof -
  define r2 where "r2 = registerLifecycle_dispose providerImpl lifecycle
                   (registerLifecycle providerImpl lifecycle r)"
  have l: "providerLifecycles r2 (p_internalId providerImpl) = None"
    and c: "providerLifecycleContexts r2 (p_internalId providerImpl) = None"
    and p: "providers r2 = providers r"
    by (simp_all add: r2_def registerLifecycle_def registerLifecycle_dispose_def Let_def
          notify_lifecycleListeners_def emit_def)
  from tracked p l have "startProviderLifecycle (p_internalId providerImpl) r2
         = (Inl (ErrorObj (''no provider lifecycle matching provider id ''
                            @ p_internalId providerImpl)), r2)"
    by (auto simp add: startProviderLifecycle_def getMatchingProvider_def
          getMatchingProviderLifecycle_def throw_Error_def)
  with l c show ?thesis unfolding Let_def r2_def [symmetric] by simp
qed

text \<open>On the registry that tracks the Podman provider.\<close>

theorem registerLifecycle_dispose_roundtrip_witness:
  "map_of (providers registry_with_podman) (p_internalId podman_provider) \<noteq> None
   \<and> providerLifecycles registry_podman_lifecycle ''0'' = Some crc_lifecycle
   \<and> providerLifecycles
        (registerLifecycle_dispose podman_provider crc_lifecycle registry_podman_lifecycle) ''0''
       = None
   \<and> fst (startProviderLifecycle ''0''
            (registerLifecycle_dispose podman_provider crc_lifecycle registry_podman_lifecycle))
       = Inl (ErrorObj ''no provider lifecycle matching provider id 0'')"
proof -
  have t: "map_of (providers registry_with_podman) (p_internalId podman_provider) \<noteq> None"
    by code_simp
  have podman_provider_internalId: "p_internalId podman_provider = ''0''" by code_simp
  have l: "providerLifecycles registry_podman_lifecycle ''0'' = Some crc_lifecycle" by code_simp
  from registerLifecycle_dispose_roundtrip [OF t, of crc_lifecycle] t l
  show ?thesis by (simp add: Let_def podman_provider_internalId registry_podman_lifecycle_def)
qed

subsection \<open>Pre-flight checks\<close>

text \<open>
  Claim C8. With \<open>runUpdateChecks\<close> true \<open>runPreflightChecks\<close> reads the registered
  update capability, otherwise the registered installation. When the capability it
  read has no \<open>preflightChecks\<close>, the result is \<open>false\<close>, not an error, and the registry
  and the trace stay as they were; when it has, its checks are the ones run.
\<close>

theorem runPreflightChecks_selects_capability:
  "(providerUpdates r pid = Some update \<longrightarrow>
      runPreflightChecks pid True r =
        (case upd_preflightChecks update of
           None \<Rightarrow> (Inr False, r)
         | Some checks \<Rightarrow> (Inr (fst (run_checks checks r)), snd (run_checks checks r))))
 \<and> (providerInstallations r pid = Some installation \<longrightarrow>
      runPreflightChecks pid False r =
        (case inst_preflightChecks installation of
           None \<Rightarrow> (Inr False, r)
         | Some checks \<Rightarrow> (Inr (fst (run_checks checks r)), snd (run_checks checks r))))"
  by (simp add: runPreflightChecks_def installOrUpdate_preflightChecks_def
        split: option.splits prod.splits)

text \<open>
  The provider has an update without pre-flight checks and an installation with three.
\<close>

theorem runPreflightChecks_selects_capability_witness:
  "providerUpdates registry_with_installation ''0''
     = Some \<lparr> upd_version = ''4.4.0'', upd_preflightChecks = None, upd_update = Inr () \<rparr>
   \<and> runPreflightChecks ''0'' True registry_with_installation
       = (Inr False, registry_with_installation)
   \<and> providerInstallations registry_with_installation ''0''
       = Some \<lparr> inst_preflightChecks = Some three_checks, inst_install = Inr () \<rparr>
   \<and> runPreflightChecks ''0'' False registry_with_installation
       = (Inr (fst (run_checks three_checks registry_with_installation)),
          snd (run_checks three_checks registry_with_installation))"
proof -
  have u: "providerUpdates registry_with_installation ''0''
     = Some \<lparr> upd_version = ''4.4.0'', upd_preflightChecks = None, upd_update = Inr () \<rparr>"
    by code_simp
  have i: "providerInstallations registry_with_installation ''0''
       = Some \<lparr> inst_preflightChecks = Some three_checks, inst_install = Inr () \<rparr>"
    by code_simp
  from runPreflightChecks_selects_capability
         [of registry_with_installation "''0''"
             "\<lparr> upd_version = ''4.4.0'', upd_preflightChecks = None, upd_update = Inr () \<rparr>"
             "\<lparr> inst_preflightChecks = Some three_checks, inst_install = Inr () \<rparr>"]
       u i
  show ?thesis by simp
qed

subsection \<open>Deleting a connection\<close>

text \<open>
  Claim C7, as amended. \<open>deleteProviderConnection\<close> takes the first connection of the
  provider whose socket path is the one of the given connection info. It throws when the
  connection has no lifecycle or the lifecycle has no \<open>delete\<close>. Otherwise it records the
  \<open>deleteProviderConnection\<close> telemetry event and then calls \<open>delete()\<close>, and its
  result is the one of \<open>delete()\<close>, fulfilled or rejected: the event is recorded before
  the outcome is known. The lifecycle contexts of the connections play no part.
\<close>

theorem deleteProviderConnection_behaviour:
  assumes "map_of (providers r) pid = Some provider"
      and "find (\<lambda>connection. conn_socketPath connection = ci_socketPath info)
             (p_containerConnections provider) = Some connection"
  shows "(case Option.bind (conn_lifecycle connection) cl_delete of
            None \<Rightarrow>
              deleteProviderConnection pid info r
                = (Inl (ErrorObj ''The container connection does not support delete lifecycle''), r)
          | Some delete \<Rightarrow>
              fst (deleteProviderConnection pid info r) = delete
              \<and> new_effects r (snd (deleteProviderConnection pid info r))
                  = [TelemetryTrack ''deleteProviderConnection'' [(''name'', ci_name info)],
                     ConnectionDelete connection])
       \<and> fst (deleteProviderConnection pid info (r\<lparr>connectionLifecycleContexts := contexts\<rparr>))
           = fst (deleteProviderConnection pid info r)"
  using assms
  by (simp add: deleteProviderConnection_def getMatchingContainerConnectionFromProvider_def
        getMatchingProvider_def throw_Error_def split: option.splits)

text \<open>On the registry with the connected Podman provider, whose \<open>delete\<close> rejects.\<close>

theorem deleteProviderConnection_behaviour_witness:
  "map_of (providers registry_connected) ''0'' = Some podman_provider_connected
   \<and> find (\<lambda>connection. conn_socketPath connection = ''/run/podman/podman.sock'')
        (p_containerConnections podman_provider_connected) = Some podman_connection
   \<and> fst (deleteProviderConnection ''0'' (getProviderContainerConnectionInfo podman_connection)
            registry_connected)
       = Inl (ErrorObj ''machine is running'')
   \<and> new_effects registry_connected
        (snd (deleteProviderConnection ''0'' (getProviderContainerConnectionInfo podman_connection)
                registry_connected))
       = [TelemetryTrack ''deleteProviderConnection'' [(''name'', ''podman-machine-default'')],
          ConnectionDelete podman_connection]"
proof -
  have t: "map_of (providers registry_connected) ''0'' = Some podman_provider_connected"
    by code_simp
  have sp: "ci_socketPath (getProviderContainerConnectionInfo podman_connection)
              = ''/run/podman/podman.sock''" by code_simp
  have nm: "ci_name (getProviderContainerConnectionInfo podman_connection)
              = ''podman-machine-default''" by code_simp
  have f: "find (\<lambda>connection. conn_socketPath connection
                   = ci_socketPath (getProviderContainerConnectionInfo podman_connection))
        (p_containerConnections podman_provider_connected) = Some podman_connection"
    by code_simp
  have d: "Option.bind (conn_lifecycle podman_connection) cl_delete
             = Some (Inl (ErrorObj ''machine is running''))" by code_simp
  from deleteProviderConnection_behaviour [OF t f] t f sp nm d show ?thesis by simp
qed

text \<open>
  Claim C7 as it was stated fails: the registry has no lifecycle context for the
  connection and \<open>delete()\<close> rejects, yet no context error is thrown, \<open>delete()\<close> is
  called and the telemetry event is recorded.
\<close>

theorem deleteProviderConnection_counterexample:
  "connectionLifecycleContexts registry_connected_no_context (conn_ref podman_connection) = None
   \<and> fst (deleteProviderConnection ''0'' (getProviderContainerConnectionInfo podman_connection)
            registry_connected_no_context)
       = Inl (ErrorObj ''machine is running'')
   \<and> new_effects registry_connected_no_context
        (snd (deleteProviderConnection ''0'' (getProviderContainerConnectionInfo podman_connection)
                registry_connected_no_context))
       = [TelemetryTrack ''deleteProviderConnection'' [(''name'', ''podman-machine-default'')],
          ConnectionDelete podman_connection]"
  by code_simp

subsection \<open>Autostart\<close>

lemma Promise_all_isl: "isl (Promise_all ps) \<longleftrightarrow> (\<exists>p\<in>set ps. isl p)"
  by (induction ps rule: Promise_all.induct) (auto split: sum.splits)

lemma Promise_all_reason: "Promise_all ps = Inl e \<Longrightarrow> Inl e \<in> set ps"
  by (induction ps rule: Promise_all.induct) (auto split: sum.splits)

lemma Promise_all_values: "Promise_all ps = Inr vs \<Longrightarrow> ps = map Inr vs"
  by (induction ps arbitrary: vs rule: Promise_all.induct) (auto split: sum.splits)

lemma start_all_started:
  "snd (start_all vs)
     = takeWhile returns_promise vs @ take 1 (dropWhile returns_promise vs)"
  by (induction vs)
     (auto simp add: returns_promise_def split: call_result.splits prod.splits sum.splits)

lemma start_all_promises:
  "list_all returns_promise vs \<Longrightarrow>
   \<exists>promises. fst (start_all vs) = Inr promises \<and> map ReturnsPromise promises = map as_start vs"
  by (induction vs)
     (auto simp add: returns_promise_def split: call_result.splits prod.splits sum.splits)

lemma start_all_throw:
  "list_all returns_promise pre \<Longrightarrow> as_start autoStart = ThrowsSync e \<Longrightarrow>
   fst (start_all (pre @ autoStart # post)) = Inl e"
  by (induction pre)
     (auto simp add: returns_promise_def split: call_result.splits prod.splits sum.splits)

lemma runAutostart_parts:
  "new_effects r (snd (runAutostart r))
     = map (\<lambda>autoStart. AutostartStart autoStart LoggerImpl)
         (snd (start_all (map snd (providerAutostarts r))))"
  "fst (runAutostart r)
     = (case fst (start_all (map snd (providerAutostarts r))) of
          Inl e \<Rightarrow> Inl e | Inr promises \<Rightarrow> Promise_all promises)"
  by (simp_all add: runAutostart_def Let_def split: prod.splits sum.splits)

text \<open>
  Claim C4, as amended. \<open>runAutostart\<close> calls \<open>start\<close> on the registered autostart
  capabilities in the order of the map, up to and including the first one whose \<open>start\<close>
  throws instead of returning a promise. When every \<open>start\<close> returns a promise, every
  capability is started whatever the promises of the others do, and the joined result is
  a rejection exactly when one of the promises rejects, with the reason of one of them.
  When a \<open>start\<close> throws after the ones before it returned promises, the capabilities
  after it are not started and the call rejects with the thrown value.
\<close>

theorem runAutostart_starts_all:
  "new_effects r (snd (runAutostart r))
     = map (\<lambda>autoStart. AutostartStart autoStart LoggerImpl)
         (takeWhile returns_promise (map snd (providerAutostarts r))
          @ take 1 (dropWhile returns_promise (map snd (providerAutostarts r))))
   \<and> (list_all returns_promise (map snd (providerAutostarts r)) \<longrightarrow>
         new_effects r (snd (runAutostart r))
           = map (\<lambda>autoStart. AutostartStart autoStart LoggerImpl)
               (map snd (providerAutostarts r))
         \<and> (isl (fst (runAutostart r))
              \<longleftrightarrow> (\<exists>autoStart \<in> set (map snd (providerAutostarts r)).
                     \<exists>e. as_start autoStart = ReturnsPromise (Inl e)))
         \<and> (\<forall>e. fst (runAutostart r) = Inl e \<longrightarrow>
                (\<exists>autoStart \<in> set (map snd (providerAutostarts r)).
                   as_start autoStart = ReturnsPromise (Inl e))))
   \<and> (\<forall>pre autoStart post e.
         map snd (providerAutostarts r) = pre @ autoStart # post
         \<and> list_all returns_promise pre \<and> as_start autoStart = ThrowsSync e \<longrightarrow>
           fst (runAutostart r) = Inl e
           \<and> new_effects r (snd (runAutostart r))
               = map (\<lambda>autoStart. AutostartStart autoStart LoggerImpl) (pre @ [autoStart]))"
proof -
  define autostartValues where "autostartValues = map snd (providerAutostarts r)"
  note parts = runAutostart_parts [of r, folded autostartValues_def]
  have a: "new_effects r (snd (runAutostart r))
     = map (\<lambda>autoStart. AutostartStart autoStart LoggerImpl)
         (takeWhile returns_promise autostartValues
          @ take 1 (dropWhile returns_promise autostartValues))"
    by (simp only: parts(1) start_all_started)
  have b: "new_effects r (snd (runAutostart r))
           = map (\<lambda>autoStart. AutostartStart autoStart LoggerImpl) autostartValues
         \<and> (isl (fst (runAutostart r))
              \<longleftrightarrow> (\<exists>autoStart \<in> set autostartValues.
                     \<exists>e. as_start autoStart = ReturnsPromise (Inl e)))
         \<and> (\<forall>e. fst (runAutostart r) = Inl e \<longrightarrow>
                (\<exists>autoStart \<in> set autostartValues.
                   as_start autoStart = ReturnsPromise (Inl e)))"
    if all: "list_all returns_promise autostartValues"
  proof -
    from all have "\<forall>x\<in>set autostartValues. returns_promise x" by (simp add: list_all_iff)
    then have tw: "takeWhile returns_promise autostartValues = autostartValues"
      and dw: "dropWhile returns_promise autostartValues = []"
      by simp_all
    from start_all_promises [OF all] obtain promises where
      ps: "fst (start_all autostartValues) = Inr promises"
          "map ReturnsPromise promises = map as_start autostartValues"
      by blast
    have res: "fst (runAutostart r) = Promise_all promises" by (simp add: parts(2) ps(1))
    have mem: "(\<exists>autoStart \<in> set autostartValues. as_start autoStart = ReturnsPromise p)
                 \<longleftrightarrow> p \<in> set promises" for p
    proof -
      have "ReturnsPromise p \<in> set (map ReturnsPromise promises) \<longleftrightarrow> p \<in> set promises"
        by auto
      moreover have "ReturnsPromise p \<in> set (map as_start autostartValues)
                       \<longleftrightarrow> (\<exists>autoStart \<in> set autostartValues. as_start autoStart = ReturnsPromise p)"
        by (force simp add: image_iff)
      ultimately show ?thesis using ps(2) by simp
    qed
    have b1: "new_effects r (snd (runAutostart r))
           = map (\<lambda>autoStart. AutostartStart autoStart LoggerImpl) autostartValues"
      using a by (simp add: tw dw)
    have "(\<exists>p\<in>set promises. isl p) \<longleftrightarrow> (\<exists>e. Inl e \<in> set promises)"
      by (auto simp add: isl_def)
    then have "isl (Promise_all promises) \<longleftrightarrow> (\<exists>e. Inl e \<in> set promises)"
      by (simp only: Promise_all_isl)
    then have iso: "isl (fst (runAutostart r)) \<longleftrightarrow> (\<exists>e. Inl e \<in> set promises)"
      by (simp only: res)
    have "(\<exists>e. Inl e \<in> set promises)
            \<longleftrightarrow> (\<exists>autoStart \<in> set autostartValues.
                   \<exists>e. as_start autoStart = ReturnsPromise (Inl e))"
      using mem by blast
    with iso have b2: "isl (fst (runAutostart r))
              \<longleftrightarrow> (\<exists>autoStart \<in> set autostartValues.
                     \<exists>e. as_start autoStart = ReturnsPromise (Inl e))"
      by (rule trans)
    have b3: "\<exists>autoStart \<in> set autostartValues. as_start autoStart = ReturnsPromise (Inl e)"
      if "fst (runAutostart r) = Inl e" for e
    proof -
      from that have "Promise_all promises = Inl e" by (simp add: res)
      then have "Inl e \<in> set promises" by (rule Promise_all_reason)
      then show ?thesis using mem by blast
    qed
    from b1 b2 b3 show ?thesis by blast
  qed
  have c: "fst (runAutostart r) = Inl e
           \<and> new_effects r (snd (runAutostart r))
               = map (\<lambda>autoStart. AutostartStart autoStart LoggerImpl) (pre @ [autoStart])"
    if h: "autostartValues = pre @ autoStart # post" "list_all returns_promise pre"
          "as_start autoStart = ThrowsSync e"
    for pre autoStart post e
  proof -
    from h(3) have nr: "\<not> returns_promise autoStart" by (simp add: returns_promise_def)
    from h(2) have all: "\<forall>x\<in>set pre. returns_promise x" by (simp add: list_all_iff)
    from all nr have tw: "takeWhile returns_promise autostartValues = pre"
      unfolding h(1) by simp
    from all nr have dw: "dropWhile returns_promise autostartValues = autoStart # post"
      unfolding h(1) by simp
    have "fst (start_all autostartValues) = Inl e"
      unfolding h(1) using h(2) h(3) by (rule start_all_throw)
    then have "fst (runAutostart r) = Inl e" by (simp add: parts(2))
    moreover have "new_effects r (snd (runAutostart r))
               = map (\<lambda>autoStart. AutostartStart autoStart LoggerImpl) (pre @ [autoStart])"
      using a by (simp add: tw dw)
    ultimately show ?thesis by simp
  qed
  from a b c show ?thesis unfolding autostartValues_def by blast
qed

text \<open>
  Two capabilities whose \<open>start\<close> returns a promise, the first rejecting and the second
  resolving: both are started, and the joined result is a rejection.
\<close>

theorem runAutostart_starts_all_witness:
  "map snd (providerAutostarts registry_with_autostarts) = [autostart_rejecting, autostart_resolving]
   \<and> list_all returns_promise (map snd (providerAutostarts registry_with_autostarts))
   \<and> as_start autostart_resolving = ReturnsPromise (Inr ())
   \<and> as_start autostart_rejecting = ReturnsPromise (Inl (ErrorObj ''cannot start''))
   \<and> isl (fst (runAutostart registry_with_autostarts))
   \<and> new_effects registry_with_autostarts (snd (runAutostart registry_with_autostarts))
       = [AutostartStart autostart_rejecting LoggerImpl,
          AutostartStart autostart_resolving LoggerImpl]"
proof -
  have vs: "map snd (providerAutostarts registry_with_autostarts)
              = [autostart_rejecting, autostart_resolving]"
    by code_simp
  have all: "list_all returns_promise (map snd (providerAutostarts registry_with_autostarts))"
    by code_simp
  have p: "as_start autostart_resolving = ReturnsPromise (Inr ())" by code_simp
  have q: "as_start autostart_rejecting = ReturnsPromise (Inl (ErrorObj ''cannot start''))"
    by code_simp
  note w = runAutostart_starts_all [of registry_with_autostarts, THEN conjunct2, THEN conjunct1,
             rule_format, OF all]
  have e: "new_effects registry_with_autostarts (snd (runAutostart registry_with_autostarts))
       = [AutostartStart autostart_rejecting LoggerImpl,
          AutostartStart autostart_resolving LoggerImpl]"
    using w [THEN conjunct1] unfolding vs by simp
  have "\<exists>autoStart \<in> set (map snd (providerAutostarts registry_with_autostarts)).
           \<exists>e. as_start autoStart = ReturnsPromise (Inl e)"
    unfolding vs using q by simp
  with w [THEN conjunct2, THEN conjunct1]
  have i: "isl (fst (runAutostart registry_with_autostarts))" by (rule iffD2)
  show ?thesis by (intro conjI vs all p q i e)
qed

text \<open>
  Claim C4 as it was stated fails: the first of two capabilities has a \<open>start\<close> that
  throws instead of returning a promise. The call rejects and only that capability was
  started; \<open>start\<close> of the resolving one is never called.
\<close>

theorem runAutostart_counterexample:
  "map snd (providerAutostarts registry_with_throwing_autostart)
     = [autostart_throwing, autostart_resolving]
   \<and> as_start autostart_resolving = ReturnsPromise (Inr ())
   \<and> fst (runAutostart registry_with_throwing_autostart) = Inl (ErrorObj ''cannot start'')
   \<and> new_effects registry_with_throwing_autostart
        (snd (runAutostart registry_with_throwing_autostart))
       = [AutostartStart autostart_throwing LoggerImpl]"
  by code_simp

subsection \<open>The loop over the pre-flight checks\<close>

lemma run_checks_trace:
  "trace (snd (run_checks checks r))
     = trace r @ concat (map check_effects (takeWhile check_succeeds checks
                                            @ take 1 (dropWhile check_succeeds checks)))
   \<and> fst (run_checks checks r) = list_all check_succeeds checks"
proof (induction checks arbitrary: r)
  case Nil
  show ?case by simp
next
  case (Cons check checks)
  show ?case
  proof (cases "chk_execute check")
    case (Inl err)
    then show ?thesis by (simp add: check_succeeds_def check_effects_def Let_def)
  next
    case (Inr checkResult)
    show ?thesis
    proof (cases "cr_successful checkResult")
      case True
      with Inr Cons.IH show ?thesis
        by (simp add: check_succeeds_def check_effects_def Let_def)
    next
      case False
      with Inr show ?thesis by (simp add: check_succeeds_def check_effects_def Let_def)
    qed
  qed
qed

text \<open>
  Claim C3. When the selected capability has pre-flight checks, they are run one after the
  other in the declared order, each between \<open>startCheck\<close> and \<open>endCheck\<close>, up to and
  including the first one that does not succeed; the result is \<open>true\<close> exactly when
  every check returned a successful result. When a check throws an \<open>Error\<close> after the
  ones before it succeeded, the result is \<open>false\<close>, \<open>endCheck\<close> reports that check as
  unsuccessful with the message of the error, and no later check is started or executed.
\<close>

theorem runPreflightChecks_sequential:
  assumes sel: "installOrUpdate_preflightChecks r pid runUpdateChecks = Some (Some checks)"
  shows "fst (runPreflightChecks pid runUpdateChecks r) = Inr (list_all check_succeeds checks)
     \<and> new_effects r (snd (runPreflightChecks pid runUpdateChecks r))
         = concat (map check_effects (takeWhile check_succeeds checks
                                      @ take 1 (dropWhile check_succeeds checks)))
     \<and> (\<forall>pre check post message.
           checks = pre @ check # post \<and> list_all check_succeeds pre
           \<and> chk_execute check = Inl (ErrorObj message) \<longrightarrow>
             fst (runPreflightChecks pid runUpdateChecks r) = Inr False
             \<and> new_effects r (snd (runPreflightChecks pid runUpdateChecks r))
                 = concat (map check_effects pre)
                   @ [StartCheck \<lparr> ev_name = chk_title check, ev_successful = None,
                                   ev_description = None, ev_docLinks = None \<rparr>,
                      CheckExecute check,
                      ConsoleError (ErrorObj message),
                      EndCheck \<lparr> ev_name = chk_title check, ev_successful = Some False,
                                 ev_description = Some message, ev_docLinks = None \<rparr>])"
proof -
  have res: "runPreflightChecks pid runUpdateChecks r
               = (Inr (fst (run_checks checks r)), snd (run_checks checks r))"
    using sel by (simp add: runPreflightChecks_def split: prod.splits)
  have a: "fst (runPreflightChecks pid runUpdateChecks r) = Inr (list_all check_succeeds checks)"
    using run_checks_trace [of checks r] by (simp add: res)
  have b: "new_effects r (snd (runPreflightChecks pid runUpdateChecks r))
         = concat (map check_effects (takeWhile check_succeeds checks
                                      @ take 1 (dropWhile check_succeeds checks)))"
    using run_checks_trace [of checks r] by (simp add: res new_effects_def)
  have c: "fst (runPreflightChecks pid runUpdateChecks r) = Inr False
             \<and> new_effects r (snd (runPreflightChecks pid runUpdateChecks r))
                 = concat (map check_effects pre)
                   @ [StartCheck \<lparr> ev_name = chk_title check, ev_successful = None,
                                   ev_description = None, ev_docLinks = None \<rparr>,
                      CheckExecute check,
                      ConsoleError (ErrorObj message),
                      EndCheck \<lparr> ev_name = chk_title check, ev_successful = Some False,
                                 ev_description = Some message, ev_docLinks = None \<rparr>]"
    if h: "checks = pre @ check # post" "list_all check_succeeds pre"
          "chk_execute check = Inl (ErrorObj message)"
    for pre check post message
  proof -
    from h(3) have nf: "\<not> check_succeeds check" by (simp add: check_succeeds_def)
    from h(2) have all: "\<forall>x\<in>set pre. check_succeeds x" by (simp add: list_all_iff)
    from all nf have tw: "takeWhile check_succeeds checks = pre"
      unfolding h(1) by simp
    from all nf have dw: "dropWhile check_succeeds checks = check # post"
      unfolding h(1) by simp
    from a nf h(1) have "fst (runPreflightChecks pid runUpdateChecks r) = Inr False"
      by (simp add: list_all_iff)
    moreover from b tw dw h(3)
    have "new_effects r (snd (runPreflightChecks pid runUpdateChecks r))
                 = concat (map check_effects pre)
                   @ [StartCheck \<lparr> ev_name = chk_title check, ev_successful = None,
                                   ev_description = None, ev_docLinks = None \<rparr>,
                      CheckExecute check,
                      ConsoleError (ErrorObj message),
                      EndCheck \<lparr> ev_name = chk_title check, ev_successful = Some False,
                                 ev_description = Some message, ev_docLinks = None \<rparr>]"
      by (simp add: check_effects_def)
    ultimately show ?thesis by simp
  qed
  from a b c show ?thesis by blast
qed

text \<open>Three checks, of which the second throws: the third is never run.\<close>

theorem runPreflightChecks_sequential_witness:
  "installOrUpdate_preflightChecks registry_with_installation ''0'' False = Some (Some three_checks)
   \<and> fst (runPreflightChecks ''0'' False registry_with_installation) = Inr False
   \<and> new_effects registry_with_installation
        (snd (runPreflightChecks ''0'' False registry_with_installation))
       = check_effects (check_ok ''WinBit'')
         @ [StartCheck \<lparr> ev_name = ''WinVer'', ev_successful = None,
                         ev_description = None, ev_docLinks = None \<rparr>,
            CheckExecute (check_throwing ''WinVer'' ''wmic failed''),
            ConsoleError (ErrorObj ''wmic failed''),
            EndCheck \<lparr> ev_name = ''WinVer'', ev_successful = Some False,
                       ev_description = Some ''wmic failed'', ev_docLinks = None \<rparr>]"
proof -
  have sel: "installOrUpdate_preflightChecks registry_with_installation ''0'' False
               = Some (Some three_checks)"
    by code_simp
  have split: "three_checks = [check_ok ''WinBit''] @ check_throwing ''WinVer'' ''wmic failed''
                                # [check_ok ''WinMemory'']"
    by (simp add: three_checks_def)
  have ok: "list_all check_succeeds [check_ok ''WinBit'']"
    by (simp add: check_succeeds_def check_ok_def)
  have thr: "chk_execute (check_throwing ''WinVer'' ''wmic failed'') = Inl (ErrorObj ''wmic failed'')"
    by (simp add: check_throwing_def)
  have ti: "chk_title (check_throwing ''WinVer'' ''wmic failed'') = ''WinVer''"
    by (simp add: check_throwing_def)
  note w = runPreflightChecks_sequential [OF sel, THEN conjunct2, THEN conjunct2, rule_format,
             OF conjI [OF split conjI [OF ok thr]]]
  have c: "concat (map check_effects [check_ok ''WinBit'']) = check_effects (check_ok ''WinBit'')"
    by simp
  from w sel show ?thesis unfolding c ti by blast
qed

subsection \<open>Starting a provider\<close>

text \<open>
  Claim C2. For the id of a tracked provider: with a lifecycle registered \<open>startProvider\<close>
  is \<open>startProviderLifecycle\<close>, which calls \<open>start\<close> of that lifecycle with its context.
  With none registered, nothing of the provider lifecycle path happens: the call throws
  when the provider has no container connection, when the first connection has no
  \<open>start\<close> or no lifecycle context, and otherwise starts the first connection with its
  context and returns the outcome of that.
\<close>

theorem startProvider_dispatch:
  assumes tracked: "map_of (providers r) pid = Some provider"
  shows "(providerLifecycles r pid \<noteq> None \<longrightarrow> startProvider pid r = startProviderLifecycle pid r)
     \<and> (\<forall>lifecycle context.
          providerLifecycles r pid = Some lifecycle \<and> providerLifecycleContexts r pid = Some context
          \<longrightarrow> LifecycleStart lifecycle context \<in> set (new_effects r (snd (startProvider pid r)))
              \<and> fst (startProvider pid r) = lc_start lifecycle)
     \<and> (providerLifecycles r pid = None \<longrightarrow>
          list_all (\<lambda>e. \<not> is_provider_lifecycle_effect e) (new_effects r (snd (startProvider pid r)))
          \<and> (case p_containerConnections provider of
               [] \<Rightarrow> startProvider pid r
                       = (Inl (ErrorObj ''No container connection found for provider''), r)
             | connection # others \<Rightarrow>
                 (case Option.bind (conn_lifecycle connection) cl_start of
                    None \<Rightarrow> startProvider pid r
                       = (Inl (ErrorObj ''The container connection does not support start lifecycle''), r)
                  | Some start \<Rightarrow>
                      (case connectionLifecycleContexts r (conn_ref connection) of
                         None \<Rightarrow> startProvider pid r
                           = (Inl (ErrorObj ''The connection does not have context to start''), r)
                       | Some context \<Rightarrow> startProvider pid r
                           = (start, emit [ConnectionStart connection context] r)))))"
proof -
  have a: "providerLifecycles r pid \<noteq> None \<Longrightarrow> startProvider pid r = startProviderLifecycle pid r"
    using tracked by (simp add: startProvider_def getMatchingProvider_def)
  have b: "LifecycleStart lifecycle ctx \<in> set (new_effects r (snd (startProvider pid r)))
              \<and> fst (startProvider pid r) = lc_start lifecycle"
    if "providerLifecycles r pid = Some lifecycle" "providerLifecycleContexts r pid = Some ctx"
    for lifecycle ctx
    using tracked that
    by (cases "lc_start lifecycle")
       (simp_all add: startProvider_def getMatchingProvider_def startProviderLifecycle_def
          getMatchingProviderLifecycle_def getMatchingLifecycleContext_def Let_def
          new_effects_def notify_lifecycleListeners_def)
  have c: "providerLifecycles r pid = None \<Longrightarrow>
     list_all (\<lambda>e. \<not> is_provider_lifecycle_effect e) (new_effects r (snd (startProvider pid r)))
          \<and> (case p_containerConnections provider of
               [] \<Rightarrow> startProvider pid r
                       = (Inl (ErrorObj ''No container connection found for provider''), r)
             | connection # others \<Rightarrow>
                 (case Option.bind (conn_lifecycle connection) cl_start of
                    None \<Rightarrow> startProvider pid r
                       = (Inl (ErrorObj ''The container connection does not support start lifecycle''), r)
                  | Some start \<Rightarrow>
                      (case connectionLifecycleContexts r (conn_ref connection) of
                         None \<Rightarrow> startProvider pid r
                           = (Inl (ErrorObj ''The connection does not have context to start''), r)
                       | Some context \<Rightarrow> startProvider pid r
                           = (start, emit [ConnectionStart connection context] r))))"
    using tracked
    by (simp add: startProvider_def getMatchingProvider_def throw_Error_def
          split: list.splits option.splits)
  from a b c show ?thesis by blast
qed

text \<open>
  The Podman provider with a lifecycle, and the Podman provider with no lifecycle and one
  connection that has a context.
\<close>

theorem startProvider_dispatch_witness:
  "map_of (providers registry_podman_lifecycle) ''0'' = Some podman_provider
   \<and> providerLifecycles registry_podman_lifecycle ''0'' = Some crc_lifecycle
   \<and> startProvider ''0'' registry_podman_lifecycle
       = startProviderLifecycle ''0'' registry_podman_lifecycle
   \<and> LifecycleStart crc_lifecycle LifecycleContextImpl
       \<in> set (new_effects registry_podman_lifecycle
                 (snd (startProvider ''0'' registry_podman_lifecycle)))
   \<and> map_of (providers registry_connected) ''0'' = Some podman_provider_connected
   \<and> providerLifecycles registry_connected ''0'' = None
   \<and> startProvider ''0'' registry_connected
       = (Inr (), emit [ConnectionStart podman_connection LifecycleContextImpl] registry_connected)"
proof -
  have t1: "map_of (providers registry_podman_lifecycle) ''0'' = Some podman_provider"
    by code_simp
  have l1: "providerLifecycles registry_podman_lifecycle ''0'' = Some crc_lifecycle" by code_simp
  have c1: "providerLifecycleContexts registry_podman_lifecycle ''0'' = Some LifecycleContextImpl"
    by code_simp
  have t2: "map_of (providers registry_connected) ''0'' = Some podman_provider_connected"
    by code_simp
  have l2: "providerLifecycles registry_connected ''0'' = None" by code_simp
  have cs: "p_containerConnections podman_provider_connected = [podman_connection]" by code_simp
  have st: "Option.bind (conn_lifecycle podman_connection) cl_start = Some (Inr ())" by code_simp
  have cx: "connectionLifecycleContexts registry_connected (conn_ref podman_connection)
              = Some LifecycleContextImpl" by code_simp
  from l1 have n1: "providerLifecycles registry_podman_lifecycle ''0'' \<noteq> None" by simp
  have a1: "startProvider ''0'' registry_podman_lifecycle
              = startProviderLifecycle ''0'' registry_podman_lifecycle"
    using startProvider_dispatch [OF t1, THEN conjunct1] n1 by blast
  have a2: "LifecycleStart crc_lifecycle LifecycleContextImpl
       \<in> set (new_effects registry_podman_lifecycle
                 (snd (startProvider ''0'' registry_podman_lifecycle)))"
    using startProvider_dispatch [OF t1, THEN conjunct2, THEN conjunct1] l1 c1 by blast
  have "case p_containerConnections podman_provider_connected of
               [] \<Rightarrow> startProvider ''0'' registry_connected
                       = (Inl (ErrorObj ''No container connection found for provider''), registry_connected)
             | connection # others \<Rightarrow>
                 (case Option.bind (conn_lifecycle connection) cl_start of
                    None \<Rightarrow> startProvider ''0'' registry_connected
                       = (Inl (ErrorObj ''The container connection does not support start lifecycle''), registry_connected)
                  | Some start \<Rightarrow>
                      (case connectionLifecycleContexts registry_connected (conn_ref connection) of
                         None \<Rightarrow> startProvider ''0'' registry_connected
                           = (Inl (ErrorObj ''The connection does not have context to start''), registry_connected)
                       | Some context \<Rightarrow> startProvider ''0'' registry_connected
                           = (start, emit [ConnectionStart connection context] registry_connected)))"
    using startProvider_dispatch [OF t2, THEN conjunct2, THEN conjunct2] l2 by blast
  then have b: "startProvider ''0'' registry_connected
       = (Inr (), emit [ConnectionStart podman_connection LifecycleContextImpl] registry_connected)"
    unfolding cs list.case st option.case cx .
  from t1 l1 a1 a2 t2 l2 b show ?thesis by blast
qed

subsection \<open>The order of \<open>getProviderInfos\<close>\<close>

lemma mset_insert_sorted: "mset (insert_sorted f x ys) = add_mset x (mset ys)"
  by (induction ys) simp_all

lemma set_insert_sorted: "set (insert_sorted f x ys) = insert x (set ys)"
  by (induction ys) auto

lemma sorted_insert_sorted:
  assumes total: "\<And>a b. f a b \<le> 0 \<or> f b a \<le> 0"
      and trans: "\<And>a b c. f a b \<le> 0 \<Longrightarrow> f b c \<le> 0 \<Longrightarrow> f a c \<le> 0"
  shows "sorted_wrt (\<lambda>a b. f a b \<le> 0) ys
         \<Longrightarrow> sorted_wrt (\<lambda>a b. f a b \<le> 0) (insert_sorted f x ys)"
proof (induction ys)
  case Nil
  show ?case by simp
next
  case (Cons y ys)
  show ?case
  proof (cases "f x y \<le> 0")
    case True
    with Cons.prems have "\<forall>z\<in>set ys. f x z \<le> 0" using trans by auto
    with True Cons.prems show ?thesis by simp
  next
    case False
    with total [of x y] have "f y x \<le> 0" by simp
    with False Cons show ?thesis by (auto simp add: set_insert_sorted)
  qed
qed

lemma Array_sort_sorted:
  assumes total: "\<And>a b. f a b \<le> 0 \<or> f b a \<le> 0"
      and trans: "\<And>a b c. f a b \<le> 0 \<Longrightarrow> f b c \<le> 0 \<Longrightarrow> f a c \<le> 0"
  shows "sorted_wrt (\<lambda>a b. f a b \<le> 0) (Array_sort f xs)"
  unfolding Array_sort_def
  by (induction xs) (simp_all add: sorted_insert_sorted [OF total trans])

lemma mset_Array_sort: "mset (Array_sort f xs) = mset xs"
  unfolding Array_sort_def by (induction xs) (simp_all add: mset_insert_sorted)

lemma codeUnitCompare_total: "codeUnitCompare a b \<le> 0 \<or> codeUnitCompare b a \<le> 0"
  by (induction a b rule: codeUnitCompare.induct) auto

lemma codeUnitCompare_trans:
  "codeUnitCompare a b \<le> 0 \<Longrightarrow> codeUnitCompare b c \<le> 0 \<Longrightarrow> codeUnitCompare a c \<le> 0"
proof (induction a arbitrary: b c)
  case Nil
  then show ?case by (cases c) simp_all
next
  case (Cons x xs)
  then show ?case
    by (cases b; cases c) (auto split: if_splits)
qed

text \<open>
  Claim C5. Whatever the registry holds, and so in whatever order the providers were
  created, \<open>getProviderInfos\<close> returns the projections of exactly the tracked providers,
  each as often as it is tracked, in descending order of their names: no provider comes
  before one whose name \<open>localeCompare\<close> puts after its own. This holds for every
  \<open>localeCompare\<close> that compares any two strings and is transitive.
\<close>

theorem getProviderInfos_descending:
  assumes total: "\<And>a b. localeCompare a b \<le> 0 \<or> localeCompare b a \<le> 0"
      and trans: "\<And>a b c. localeCompare a b \<le> 0 \<Longrightarrow> localeCompare b c \<le> 0
                            \<Longrightarrow> localeCompare a c \<le> 0"
  shows "sorted_wrt (\<lambda>info1 info2. localeCompare (pi_name info2) (pi_name info1) \<le> 0)
           (getProviderInfos localeCompare r)
       \<and> mset (getProviderInfos localeCompare r)
           = mset (map (getProviderInfo r) (map snd (providers r)))"
proof -
  let ?f = "\<lambda>provider1 provider2 :: ProviderInfo.
              localeCompare (pi_name provider2) (pi_name provider1)"
  have t: "?f a b \<le> 0 \<or> ?f b a \<le> 0" for a b :: ProviderInfo using total by blast
  have tr: "?f a b \<le> 0 \<Longrightarrow> ?f b c \<le> 0 \<Longrightarrow> ?f a c \<le> 0" for a b c :: ProviderInfo
    using trans by blast
  have "sorted_wrt (\<lambda>a b. ?f a b \<le> 0) (Array_sort ?f xs)" for xs
    by (rule Array_sort_sorted [of ?f, OF t tr])
  then show ?thesis by (simp add: getProviderInfos_def mset_Array_sort)
qed

text \<open>Three providers created as Docker, Podman, CRC are listed as Podman, Docker, CRC.\<close>

theorem getProviderInfos_descending_witness:
  "map pi_name (map (getProviderInfo registry_three_providers)
                    (map snd (providers registry_three_providers)))
     = [''Docker'', ''Podman'', ''CRC'']
   \<and> map pi_name (getProviderInfos codeUnitCompare registry_three_providers)
       = [''Podman'', ''Docker'', ''CRC'']
   \<and> sorted_wrt (\<lambda>info1 info2. codeUnitCompare (pi_name info2) (pi_name info1) \<le> 0)
        (getProviderInfos codeUnitCompare registry_three_providers)"
proof -
  have a: "map pi_name (map (getProviderInfo registry_three_providers)
                    (map snd (providers registry_three_providers)))
     = [''Docker'', ''Podman'', ''CRC'']"
    by code_simp
  have b: "map pi_name (getProviderInfos codeUnitCompare registry_three_providers)
       = [''Podman'', ''Docker'', ''CRC'']"
    by code_simp
  have srt: "sorted_wrt (\<lambda>info1 info2. codeUnitCompare (pi_name info2) (pi_name info1) \<le> 0)
        (getProviderInfos codeUnitCompare registry_three_providers)"
    by (rule getProviderInfos_descending [of codeUnitCompare, THEN conjunct1])
       (rule codeUnitCompare_total, rule codeUnitCompare_trans)
  show ?thesis by (intro conjI a b srt)
qed

subsection \<open>The reconciliation timer, tick by tick\<close>

lemma list_all_update:
  "list_all P al \<Longrightarrow> P (k, v) \<Longrightarrow> list_all P (AList.update k v al)"
  by (induction al) auto

lemma list_all_delete: "list_all P al \<Longrightarrow> list_all P (AList.delete k al)"
  by (induction al) auto

lemma keys_update_present:
  "map_of al k = Some v' \<Longrightarrow> map fst (AList.update k v al) = map fst al"
  by (induction al) (auto split: if_splits)

lemma keyed_lookup:
  "keyed_by_internalId r \<Longrightarrow> map_of (providers r) k = Some p \<Longrightarrow> p_internalId p = k"
  by (auto simp add: keyed_by_internalId_def list_all_iff dest: map_of_SomeD)

lemma update_status_calls_append [simp]:
  "update_status_calls pid (es @ es') = update_status_calls pid es @ update_status_calls pid es'"
  by (simp add: update_status_calls_def)

lemma update_status_calls_Nil [simp]: "update_status_calls pid [] = []"
  by (simp add: update_status_calls_def)

lemma update_status_calls_own:
  "pi_internalId info = pid \<Longrightarrow>
   update_status_calls pid (map (\<lambda>l. ListenerCall l ''provider:update-status'' info) ls)
     = map (\<lambda>l. ListenerCall l ''provider:update-status'' info) ls"
  by (induction ls) (simp_all add: update_status_calls_def)

lemma update_status_calls_other:
  "pi_internalId info \<noteq> pid \<Longrightarrow>
   update_status_calls pid (map (\<lambda>l. ListenerCall l name info) ls) = []"
  by (induction ls) (simp_all add: update_status_calls_def)

lemma pi_internalId_getProviderInfo [simp]:
  "pi_internalId (getProviderInfo r p) = p_internalId p"
  by (simp add: getProviderInfo_def)

text \<open>What one step of the timer loop leaves alone.\<close>

lemma reconcile_frame:
  "listeners (reconcile_provider poll k r) = listeners r"
  "providerLifecycles (reconcile_provider poll k r) = providerLifecycles r"
  "providerInstallations (reconcile_provider poll k r) = providerInstallations r"
  "providerUpdates (reconcile_provider poll k r) = providerUpdates r"
  "map fst (providers (reconcile_provider poll k r)) = map fst (providers r)"
  by (simp_all add: reconcile_provider_def Let_def notify_listeners_def emit_def
        keys_update_present split: option.splits)

lemma reconcile_keyed:
  assumes "keyed_by_internalId r"
  shows "keyed_by_internalId (reconcile_provider poll k r)"
proof -
  have d: "distinct (map fst (providers (reconcile_provider poll k r)))"
    using assms by (simp add: reconcile_frame keyed_by_internalId_def)
  have "list_all (\<lambda>(providerKey, provider). p_internalId provider = providerKey)
          (providers (reconcile_provider poll k r))"
    using assms keyed_lookup [OF assms, of k]
    by (auto simp add: reconcile_provider_def Let_def notify_listeners_def emit_def
          keyed_by_internalId_def updateStatus_def
          split: option.splits intro!: list_all_update)
  with d show ?thesis by (simp add: keyed_by_internalId_def)
qed

lemma reconcile_other:
  assumes keyed: "keyed_by_internalId r" and ne: "k \<noteq> pid"
  shows "map_of (providers (reconcile_provider poll k r)) pid = map_of (providers r) pid"
    and "providerStatuses (reconcile_provider poll k r) pid = providerStatuses r pid"
    and "\<exists>es. trace (reconcile_provider poll k r) = trace r @ es \<and> update_status_calls pid es = []"
proof -
  show "map_of (providers (reconcile_provider poll k r)) pid = map_of (providers r) pid"
    using ne by (simp add: reconcile_provider_def Let_def notify_listeners_def emit_def
                   update_conv' split: option.splits)
  show "providerStatuses (reconcile_provider poll k r) pid = providerStatuses r pid"
    using ne by (simp add: reconcile_provider_def Let_def notify_listeners_def emit_def
                   split: option.splits)
  show "\<exists>es. trace (reconcile_provider poll k r) = trace r @ es \<and> update_status_calls pid es = []"
    using ne keyed_lookup [OF keyed, of k]
    by (auto simp add: reconcile_provider_def Let_def notify_listeners_def emit_def
          updateStatus_def update_status_calls_other split: option.splits)
qed

lemma reconcile_self_same:
  assumes "providerStatuses r pid = Some (poll pid)"
  shows "reconcile_provider poll pid r = r"
  using assms by (simp add: reconcile_provider_def Let_def split: option.splits)

lemma reconcile_self_changed:
  assumes keyed: "keyed_by_internalId r"
      and tracked: "map_of (providers r) pid = Some p"
      and lifecycle: "providerLifecycles r pid = Some lc"
      and changed: "providerStatuses r pid \<noteq> Some (poll pid)"
  shows "map_of (providers (reconcile_provider poll pid r)) pid = Some (p\<lparr>p_status := poll pid\<rparr>)"
    and "providerStatuses (reconcile_provider poll pid r) pid = Some (poll pid)"
    and "trace (reconcile_provider poll pid r)
           = trace r @ map (\<lambda>l. ListenerCall l ''provider:update-status''
                                  (getProviderInfo r (p\<lparr>p_status := poll pid\<rparr>))) (listeners r)"
proof -
  have info: "getProviderInfo (r\<lparr>providers := ps\<rparr>) q = getProviderInfo r q" for ps q
    by (simp add: getProviderInfo_def)
  from changed have c: "Some (poll pid) \<noteq> providerStatuses r pid" by auto
  show "map_of (providers (reconcile_provider poll pid r)) pid = Some (p\<lparr>p_status := poll pid\<rparr>)"
    using tracked lifecycle c
    by (simp add: reconcile_provider_def Let_def notify_listeners_def emit_def
          update_conv' updateStatus_def)
  show "providerStatuses (reconcile_provider poll pid r) pid = Some (poll pid)"
    using tracked lifecycle c
    by (simp add: reconcile_provider_def Let_def notify_listeners_def emit_def)
  show "trace (reconcile_provider poll pid r)
           = trace r @ map (\<lambda>l. ListenerCall l ''provider:update-status''
                                  (getProviderInfo r (p\<lparr>p_status := poll pid\<rparr>))) (listeners r)"
    using tracked lifecycle c
    by (simp add: reconcile_provider_def Let_def notify_listeners_def emit_def
          updateStatus_def info)
qed

lemma fold_reconcile_frame:
  "listeners (fold (reconcile_provider poll) ks r) = listeners r
   \<and> providerLifecycles (fold (reconcile_provider poll) ks r) = providerLifecycles r
   \<and> providerInstallations (fold (reconcile_provider poll) ks r) = providerInstallations r
   \<and> providerUpdates (fold (reconcile_provider poll) ks r) = providerUpdates r
   \<and> map fst (providers (fold (reconcile_provider poll) ks r)) = map fst (providers r)
   \<and> (keyed_by_internalId r \<longrightarrow> keyed_by_internalId (fold (reconcile_provider poll) ks r))"
  by (induction ks arbitrary: r) (simp_all add: reconcile_frame reconcile_keyed)

lemma getProviderInfo_frame:
  "providerInstallations r' = providerInstallations r \<Longrightarrow>
   providerUpdates r' = providerUpdates r \<Longrightarrow>
   providerLifecycles r' = providerLifecycles r \<Longrightarrow>
   getProviderInfo r' = getProviderInfo r"
  by (rule ext) (simp add: getProviderInfo_def)

lemma fold_reconcile_untouched:
  assumes "pid \<notin> set ks" and "keyed_by_internalId r"
  shows "map_of (providers (fold (reconcile_provider poll) ks r)) pid = map_of (providers r) pid
     \<and> providerStatuses (fold (reconcile_provider poll) ks r) pid = providerStatuses r pid
     \<and> (\<exists>es. trace (fold (reconcile_provider poll) ks r) = trace r @ es
              \<and> update_status_calls pid es = [])"
  using assms
proof (induction ks arbitrary: r)
  case Nil
  show ?case by simp
next
  case (Cons k ks)
  let ?r1 = "reconcile_provider poll k r"
  from Cons.prems have ne: "k \<noteq> pid" and nin: "pid \<notin> set ks" by auto
  have keyed1: "keyed_by_internalId ?r1" using Cons.prems(2) by (rule reconcile_keyed)
  note o = reconcile_other [OF Cons.prems(2) ne, of poll]
  from o(3) obtain es1 where es1: "trace ?r1 = trace r @ es1" "update_status_calls pid es1 = []"
    by blast
  from Cons.IH [OF nin keyed1] obtain es2 where
    ih: "map_of (providers (fold (reconcile_provider poll) ks ?r1)) pid = map_of (providers ?r1) pid"
        "providerStatuses (fold (reconcile_provider poll) ks ?r1) pid = providerStatuses ?r1 pid"
        "trace (fold (reconcile_provider poll) ks ?r1) = trace ?r1 @ es2"
        "update_status_calls pid es2 = []"
    by blast
  have "trace (fold (reconcile_provider poll) ks ?r1) = trace r @ (es1 @ es2)"
    using ih(3) es1(1) by simp
  moreover have "update_status_calls pid (es1 @ es2) = []" using es1(2) ih(4) by simp
  ultimately have "\<exists>es. trace (fold (reconcile_provider poll) ks ?r1) = trace r @ es
                        \<and> update_status_calls pid es = []" by blast
  with ih(1,2) o(1,2) show ?case by simp
qed

lemma fold_reconcile_tracked:
  assumes "distinct ks" and "pid \<in> set ks" and "keyed_by_internalId r"
      and "map_of (providers r) pid = Some p" and "providerLifecycles r pid = Some lc"
  shows "\<exists>es. trace (fold (reconcile_provider poll) ks r) = trace r @ es
     \<and> (if providerStatuses r pid = Some (poll pid)
         then update_status_calls pid es = []
              \<and> map_of (providers (fold (reconcile_provider poll) ks r)) pid = Some p
         else update_status_calls pid es
                = map (\<lambda>l. ListenerCall l ''provider:update-status''
                             (getProviderInfo r (p\<lparr>p_status := poll pid\<rparr>))) (listeners r)
              \<and> map_of (providers (fold (reconcile_provider poll) ks r)) pid
                  = Some (p\<lparr>p_status := poll pid\<rparr>))
     \<and> providerStatuses (fold (reconcile_provider poll) ks r) pid = Some (poll pid)"
  using assms
proof (induction ks arbitrary: r)
  case Nil
  then show ?case by simp
next
  case (Cons k ks)
  let ?r1 = "reconcile_provider poll k r"
  let ?r' = "fold (reconcile_provider poll) ks ?r1"
  have keyed: "keyed_by_internalId r" by (rule Cons.prems(3))
  have keyed1: "keyed_by_internalId ?r1" using keyed by (rule reconcile_keyed)
  from Cons.prems(1) have d: "distinct ks" and nk: "k \<notin> set ks" by simp_all
  show ?case
  proof (cases "k = pid")
    case True
    with nk have nin: "pid \<notin> set ks" by simp
    from fold_reconcile_untouched [OF nin keyed1, of poll] obtain es2 where
      u: "map_of (providers ?r') pid = map_of (providers ?r1) pid"
         "providerStatuses ?r' pid = providerStatuses ?r1 pid"
         "trace ?r' = trace ?r1 @ es2" "update_status_calls pid es2 = []"
      by blast
    show ?thesis
    proof (cases "providerStatuses r pid = Some (poll pid)")
      case same: True
      then have "?r1 = r" using True by (simp add: reconcile_self_same)
      with u same Cons.prems(4) have "trace ?r' = trace r @ es2 \<and> update_status_calls pid es2 = []
          \<and> map_of (providers ?r') pid = Some p \<and> providerStatuses ?r' pid = Some (poll pid)"
        by simp
      with same show ?thesis by auto
    next
      case changed: False
      note c = reconcile_self_changed [where poll = poll and pid = pid, OF keyed Cons.prems(4) Cons.prems(5) changed]
      let ?es1 = "map (\<lambda>l. ListenerCall l ''provider:update-status''
                             (getProviderInfo r (p\<lparr>p_status := poll pid\<rparr>))) (listeners r)"
      have pid: "p_internalId p = pid" using keyed Cons.prems(4) by (rule keyed_lookup)
      have own: "update_status_calls pid ?es1 = ?es1"
        by (rule update_status_calls_own) (simp add: pid)
      have "trace ?r' = trace r @ (?es1 @ es2)" using u(3) c(3) True by simp
      moreover have "update_status_calls pid (?es1 @ es2) = ?es1" using own u(4) by simp
      moreover have "map_of (providers ?r') pid = Some (p\<lparr>p_status := poll pid\<rparr>)"
        using u(1) c(1) True by simp
      moreover have "providerStatuses ?r' pid = Some (poll pid)" using u(2) c(2) True by simp
      ultimately show ?thesis using changed by auto
    qed
  next
    case False
    with Cons.prems(2) have mem: "pid \<in> set ks" by auto
    note o = reconcile_other [OF keyed False, of poll]
    from o(3) obtain es1 where es1: "trace ?r1 = trace r @ es1" "update_status_calls pid es1 = []"
      by blast
    have tr1: "map_of (providers ?r1) pid = Some p" using o(1) Cons.prems(4) by simp
    have lc1: "providerLifecycles ?r1 pid = Some lc"
      using Cons.prems(5) by (simp add: reconcile_frame)
    have info: "getProviderInfo ?r1 = getProviderInfo r"
      by (rule getProviderInfo_frame) (simp_all add: reconcile_frame)
    have ls: "listeners ?r1 = listeners r" by (simp add: reconcile_frame)
    from Cons.IH [OF d mem keyed1 tr1 lc1] obtain es2 where
      ih: "trace ?r' = trace ?r1 @ es2"
          "if providerStatuses r pid = Some (poll pid)
           then update_status_calls pid es2 = [] \<and> map_of (providers ?r') pid = Some p
           else update_status_calls pid es2
                  = map (\<lambda>l. ListenerCall l ''provider:update-status''
                               (getProviderInfo r (p\<lparr>p_status := poll pid\<rparr>))) (listeners r)
                \<and> map_of (providers ?r') pid = Some (p\<lparr>p_status := poll pid\<rparr>)"
          "providerStatuses ?r' pid = Some (poll pid)"
      unfolding info ls o(2) by blast
    have t: "trace ?r' = trace r @ (es1 @ es2)" using ih(1) es1(1) by simp
    have f: "update_status_calls pid (es1 @ es2) = update_status_calls pid es2"
      using es1(2) by simp
    show ?thesis
      apply simp
      apply (rule exI [of _ "es1 @ es2"])
      using t f ih(2) ih(3) apply (simp split: if_splits)
      done
  qed
qed

lemma tick_update_status:
  assumes keyed: "keyed_by_internalId r"
      and tracked: "map_of (providers r) pid = Some p"
      and lifecycle: "providerLifecycles r pid = Some lc"
  shows "update_status_calls pid (new_effects r (tick poll r))
           = (if providerStatuses r pid = Some (poll pid) then []
              else map (\<lambda>l. ListenerCall l ''provider:update-status''
                               (getProviderInfo r (p\<lparr>p_status := poll pid\<rparr>))) (listeners r))"
    and "map_of (providers (tick poll r)) pid
           = Some (if providerStatuses r pid = Some (poll pid) then p
                   else p\<lparr>p_status := poll pid\<rparr>)"
    and "providerStatuses (tick poll r) pid = Some (poll pid)"
proof -
  from keyed have d: "distinct (map fst (providers r))" by (simp add: keyed_by_internalId_def)
  from tracked have mem: "pid \<in> set (map fst (providers r))"
    by (auto dest: map_of_SomeD intro: rev_image_eqI)
  from fold_reconcile_tracked [OF d mem keyed tracked lifecycle, of poll]
  obtain es where
    es: "trace (tick poll r) = trace r @ es"
        "if providerStatuses r pid = Some (poll pid)
         then update_status_calls pid es = [] \<and> map_of (providers (tick poll r)) pid = Some p
         else update_status_calls pid es
                = map (\<lambda>l. ListenerCall l ''provider:update-status''
                             (getProviderInfo r (p\<lparr>p_status := poll pid\<rparr>))) (listeners r)
              \<and> map_of (providers (tick poll r)) pid = Some (p\<lparr>p_status := poll pid\<rparr>)"
        "providerStatuses (tick poll r) pid = Some (poll pid)"
    unfolding tick_def by blast
  from es(1) have ne: "new_effects r (tick poll r) = es" by (simp add: new_effects_def)
  show "update_status_calls pid (new_effects r (tick poll r))
           = (if providerStatuses r pid = Some (poll pid) then []
              else map (\<lambda>l. ListenerCall l ''provider:update-status''
                               (getProviderInfo r (p\<lparr>p_status := poll pid\<rparr>))) (listeners r))"
    using es(2) ne by (simp split: if_splits)
  show "map_of (providers (tick poll r)) pid
           = Some (if providerStatuses r pid = Some (poll pid) then p
                   else p\<lparr>p_status := poll pid\<rparr>)"
    using es(2) by (simp split: if_splits)
  show "providerStatuses (tick poll r) pid = Some (poll pid)" by (rule es(3))
qed

lemma tick_frame:
  "listeners (tick poll r) = listeners r"
  "providerLifecycles (tick poll r) = providerLifecycles r"
  "getProviderInfo (tick poll r) = getProviderInfo r"
  "keyed_by_internalId r \<Longrightarrow> keyed_by_internalId (tick poll r)"
proof -
  note f = fold_reconcile_frame [of poll "map fst (providers r)" r, folded tick_def]
  from f show "listeners (tick poll r) = listeners r" by simp
  from f show "providerLifecycles (tick poll r) = providerLifecycles r" by simp
  from f show "getProviderInfo (tick poll r) = getProviderInfo r"
    by (intro getProviderInfo_frame) simp_all
  from f show "keyed_by_internalId r \<Longrightarrow> keyed_by_internalId (tick poll r)" by simp
qed

text \<open>
  Claim C1, as amended. A tracked provider has a registered lifecycle, and \<open>status()\<close>
  returns A, A and B (different from A) in three successive ticks. On the second tick no
  \<open>provider:update-status\<close> call about the provider is made; on the third tick every
  listener gets exactly one, with the status B, and the provider's stored status is B. On
  the first tick no call is made when A is the value recorded from the polls before;
  otherwise, and so on the first tick after the lifecycle was registered, every listener
  gets one call with the status A. After each tick the recorded value is the status that
  was polled.
\<close>

theorem status_reconciliation_A_A_B:
  assumes keyed: "keyed_by_internalId r0"
      and tracked: "map_of (providers r0) pid = Some provider"
      and lifecycle: "providerLifecycles r0 pid = Some lifecycle"
      and polls: "poll1 pid = A" "poll2 pid = A" "poll3 pid = B"
      and differs: "A \<noteq> B"
  shows "(let r1 = tick poll1 r0; r2 = tick poll2 r1; r3 = tick poll3 r2
          in update_status_calls pid (new_effects r0 r1)
               = (if providerStatuses r0 pid = Some A then []
                  else map (\<lambda>listener. ListenerCall listener ''provider:update-status''
                              (getProviderInfo r0 (provider\<lparr>p_status := A\<rparr>))) (listeners r0))
           \<and> update_status_calls pid (new_effects r1 r2) = []
           \<and> update_status_calls pid (new_effects r2 r3)
               = map (\<lambda>listener. ListenerCall listener ''provider:update-status''
                        (getProviderInfo r0 (provider\<lparr>p_status := B\<rparr>))) (listeners r0)
           \<and> providerStatuses r1 pid = Some A
           \<and> providerStatuses r2 pid = Some A
           \<and> providerStatuses r3 pid = Some B
           \<and> map_of (providers r3) pid = Some (provider\<lparr>p_status := B\<rparr>))"
proof -
  define r1 where "r1 = tick poll1 r0"
  define r2 where "r2 = tick poll2 r1"
  define r3 where "r3 = tick poll3 r2"
  define p1 where "p1 = (if providerStatuses r0 pid = Some A then provider
                         else provider\<lparr>p_status := A\<rparr>)"
  note t1 = tick_update_status [OF keyed tracked lifecycle, of poll1, folded r1_def]
  have e1: "update_status_calls pid (new_effects r0 r1)
               = (if providerStatuses r0 pid = Some A then []
                  else map (\<lambda>listener. ListenerCall listener ''provider:update-status''
                              (getProviderInfo r0 (provider\<lparr>p_status := A\<rparr>))) (listeners r0))"
    using t1(1) polls(1) by simp
  have tr1: "map_of (providers r1) pid = Some p1" using t1(2) polls(1) by (simp add: p1_def)
  have s1: "providerStatuses r1 pid = Some A" using t1(3) polls(1) by simp
  have k1: "keyed_by_internalId r1" unfolding r1_def using keyed by (rule tick_frame)
  have l1: "providerLifecycles r1 pid = Some lifecycle"
    unfolding r1_def using lifecycle by (simp add: tick_frame)
  note t2 = tick_update_status [OF k1 tr1 l1, of poll2, folded r2_def]
  have e2: "update_status_calls pid (new_effects r1 r2) = []" using t2(1) s1 polls(2) by simp
  have tr2: "map_of (providers r2) pid = Some p1" using t2(2) s1 polls(2) by simp
  have s2: "providerStatuses r2 pid = Some A" using t2(3) polls(2) by simp
  have k2: "keyed_by_internalId r2" unfolding r2_def using k1 by (rule tick_frame)
  have l2: "providerLifecycles r2 pid = Some lifecycle"
    unfolding r2_def using l1 by (simp add: tick_frame)
  have i2: "getProviderInfo r2 = getProviderInfo r0" by (simp add: r2_def r1_def tick_frame)
  have ls2: "listeners r2 = listeners r0" by (simp add: r2_def r1_def tick_frame)
  have pB: "p1\<lparr>p_status := B\<rparr> = provider\<lparr>p_status := B\<rparr>" by (simp add: p1_def)
  note t3 = tick_update_status [OF k2 tr2 l2, of poll3, folded r3_def]
  have e3: "update_status_calls pid (new_effects r2 r3)
               = map (\<lambda>listener. ListenerCall listener ''provider:update-status''
                        (getProviderInfo r0 (provider\<lparr>p_status := B\<rparr>))) (listeners r0)"
    using t3(1) s2 polls(3) differs by (simp add: i2 ls2 pB)
  have s3: "providerStatuses r3 pid = Some B" using t3(3) polls(3) by simp
  have tr3: "map_of (providers r3) pid = Some (provider\<lparr>p_status := B\<rparr>)"
    using t3(2) s2 polls(3) differs by (simp add: pB)
  from e1 e2 e3 s1 s2 s3 tr3 show ?thesis
    unfolding Let_def r1_def [symmetric] r2_def [symmetric] r3_def [symmetric] by blast
qed

text \<open>Every registry of a session is keyed by internal id.\<close>

lemma providers_run_checks [simp]: "providers (snd (run_checks cs r)) = providers r"
  by (induction cs arbitrary: r) (simp_all add: Let_def emit_def split: sum.splits)

lemma providers_run_checks_pair: "run_checks cs r = (b, r') \<Longrightarrow> providers r' = providers r"
  using providers_run_checks [of cs r] by simp

lemma keyed_exec:
  assumes "keyed_by_internalId r"
  shows "keyed_by_internalId (exec c r)"
proof (cases c)
  case (CreateProvider opts)
  with assms show ?thesis
    by (simp add: createProvider_def Let_def keyed_by_internalId_def notify_listeners_def
          emit_def new_ProviderImpl_def distinct_update list_all_update)
next
  case (DisposeProvider p)
  with assms show ?thesis
    by (simp add: disposeProvider_def Let_def keyed_by_internalId_def notify_listeners_def
          emit_def distinct_delete list_all_delete)
next
  case (Tick poll)
  with assms show ?thesis by (simp add: tick_frame)
qed (use assms in \<open>auto simp add: keyed_by_internalId_def emit_def
        notify_lifecycleListeners_def notify_connectionListeners_def
        registerLifecycle_def registerLifecycle_dispose_def
        registerInstallation_def registerInstallation_dispose_def registerUpdate_def
        registerUpdate_dispose_def registerAutostart_def registerAutostart_dispose_def
        addProviderListener_def removeProviderListener_def addProviderLifecycleListener_def
        removeProviderLifecycleListener_def addProviderContainerConnectionLifecycleListener_def
        removeProviderContainerConnectionLifecycleListener_def intializeProviderLifecycle_def
        startProviderLifecycle_def stopProviderLifecycle_def startProvider_def
        initializeProvider_def installProvider_def updateProvider_def runAutostart_def
        runPreflightChecks_def createProviderConnection_def startProviderConnection_def
        stopProviderConnection_def deleteProviderConnection_def
        onDidRegisterContainerConnection_def onDidChangeContainerProviderConnectionStatus_def
        onDidUnregisterContainerConnection_def Let_def
        split: option.splits sum.splits list.splits prod.splits
        dest: providers_run_checks_pair\<close>)

lemma keyed_run: "keyed_by_internalId r \<Longrightarrow> keyed_by_internalId (snd (run cs r))"
proof (induction cs arbitrary: r)
  case Nil
  then show ?case by simp
next
  case (Cons c cs)
  have "snd (run (c # cs) r) = snd (run cs (exec c r))"
    by (cases c) (simp_all split: prod.splits)
  with Cons.IH [OF keyed_exec [OF Cons.prems, of c]] show ?case by simp
qed

lemma keyed_session: "keyed_by_internalId (snd (run cs new_ProviderRegistry))"
  by (rule keyed_run) (simp add: keyed_by_internalId_def new_ProviderRegistry_def)

text \<open>
  On the registry with one listener and the CRC provider, right after its lifecycle was
  registered: the first tick and the third tick call the listener.
\<close>

theorem status_reconciliation_A_A_B_witness:
  "keyed_by_internalId registry_crc_lifecycle
   \<and> map_of (providers registry_crc_lifecycle) ''0'' = Some crc_provider
   \<and> providerLifecycles registry_crc_lifecycle ''0'' = Some crc_lifecycle
   \<and> providerStatuses registry_crc_lifecycle ''0'' = None
   \<and> (let r1 = tick (\<lambda>providerKey. ''A'') registry_crc_lifecycle;
           r2 = tick (\<lambda>providerKey. ''A'') r1;
           r3 = tick (\<lambda>providerKey. ''B'') r2
       in update_status_calls ''0'' (new_effects registry_crc_lifecycle r1)
            = [ListenerCall 1 ''provider:update-status''
                 (getProviderInfo registry_crc_lifecycle (crc_provider\<lparr>p_status := ''A''\<rparr>))]
        \<and> update_status_calls ''0'' (new_effects r1 r2) = []
        \<and> update_status_calls ''0'' (new_effects r2 r3)
            = [ListenerCall 1 ''provider:update-status''
                 (getProviderInfo registry_crc_lifecycle (crc_provider\<lparr>p_status := ''B''\<rparr>))]
        \<and> providerStatuses r3 ''0'' = Some ''B'')"
proof -
  have k: "keyed_by_internalId registry_crc_lifecycle" by code_simp
  have t: "map_of (providers registry_crc_lifecycle) ''0'' = Some crc_provider" by code_simp
  have l: "providerLifecycles registry_crc_lifecycle ''0'' = Some crc_lifecycle" by code_simp
  have s: "providerStatuses registry_crc_lifecycle ''0'' = None" by code_simp
  have ls: "listeners registry_crc_lifecycle = [1]" by code_simp
  have d: "''A'' \<noteq> ''B''" by simp
  note w = status_reconciliation_A_A_B [where ?poll1.0 = "\<lambda>providerKey. ''A''"
           and ?poll2.0 = "\<lambda>providerKey. ''A''" and ?poll3.0 = "\<lambda>providerKey. ''B''",
           OF k t l refl refl refl d]
  have n: "providerStatuses registry_crc_lifecycle ''0'' \<noteq> Some ''A''" by (simp add: s)
  from w have "let r1 = tick (\<lambda>providerKey. ''A'') registry_crc_lifecycle;
           r2 = tick (\<lambda>providerKey. ''A'') r1;
           r3 = tick (\<lambda>providerKey. ''B'') r2
       in update_status_calls ''0'' (new_effects registry_crc_lifecycle r1)
            = [ListenerCall 1 ''provider:update-status''
                 (getProviderInfo registry_crc_lifecycle (crc_provider\<lparr>p_status := ''A''\<rparr>))]
        \<and> update_status_calls ''0'' (new_effects r1 r2) = []
        \<and> update_status_calls ''0'' (new_effects r2 r3)
            = [ListenerCall 1 ''provider:update-status''
                 (getProviderInfo registry_crc_lifecycle (crc_provider\<lparr>p_status := ''B''\<rparr>))]
        \<and> providerStatuses r3 ''0'' = Some ''B''"
    unfolding Let_def ls if_not_P [OF n] list.map by (elim conjE) (intro conjI)
  with k t l s show ?thesis by (intro conjI)
qed

text \<open>
  Claim C1 as it was stated fails: in the session that registers the lifecycle and then
  polls A, A and B, one \<open>provider:update-status\<close> call has been made after the first
  tick, and two after the third.
\<close>

theorem status_reconciliation_counterexample:
  "length (update_status_calls ''0''
             (trace (snd (run (take 4 session_status_A_A_B) new_ProviderRegistry)))) = 1
   \<and> length (update_status_calls ''0''
             (trace (snd (run session_status_A_A_B new_ProviderRegistry)))) = 2"
  by code_simp

subsection \<open>Internal ids in a session\<close>

text \<open>
  Claim C9. In every session of a registry, whatever is created, disposed, registered,
  started or polled in between, the providers returned by \<open>createProvider\<close> have pairwise
  different internal ids, and the counter has advanced by one for each of them: an
  internal id is never given out twice, also not after its provider was disposed. The
  providers that the registry tracks are stored each under its own internal id, no two
  under the same.
\<close>

theorem internalId_never_reused:
  "distinct (map p_internalId (fst (run cs new_ProviderRegistry)))
   \<and> count (snd (run cs new_ProviderRegistry)) = length (fst (run cs new_ProviderRegistry))
   \<and> keyed_by_internalId (snd (run cs new_ProviderRegistry))"
proof -
  have "inj string_of_count" by (rule injI) (rule string_of_count_inj)
  then have "distinct (map string_of_count [0 ..< length (fst (run cs new_ProviderRegistry))])"
    by (simp add: distinct_map inj_on_def)
  with run_internalIds [of cs new_ProviderRegistry] keyed_session [of cs] show ?thesis
    by (simp add: new_ProviderRegistry_def)
qed

text \<open>A session that creates a provider, disposes it and creates another one.\<close>

lemma run_CreateProvider:
  "fst (run (CreateProvider opts # cs) r)
     = fst (createProvider opts r) # fst (run cs (snd (createProvider opts r)))"
  "snd (run (CreateProvider opts # cs) r) = snd (run cs (snd (createProvider opts r)))"
  by (simp_all split: prod.splits)

lemma run_DisposeProvider: "run (DisposeProvider p # cs) r = run cs (disposeProvider p r)"
  by simp

theorem internalId_never_reused_witness:
  "map p_internalId (fst (run session_create_dispose_create new_ProviderRegistry)) = [''0'', ''1'']
   \<and> distinct (map p_internalId (fst (run session_create_dispose_create new_ProviderRegistry)))
   \<and> count (snd (run session_create_dispose_create new_ProviderRegistry)) = 2
   \<and> keyed_by_internalId (snd (run session_create_dispose_create new_ProviderRegistry))"
proof -
  have s0: "string_of_count 0 = ''0''" and s1: "string_of_count (Suc 0) = ''1''"
    by code_simp+
  have c: "count (disposeProvider p r) = count r" for p r
    using count_exec [of "DisposeProvider p" r] by simp
  have ids: "map p_internalId (fst (run session_create_dispose_create new_ProviderRegistry))
               = [''0'', ''1'']"
    by (simp del: run.simps
          add: session_create_dispose_create_def run_CreateProvider run_DisposeProvider
               run.simps(1) count_createProvider c s0 s1 new_ProviderRegistry_def)
  have len: "length (fst (run session_create_dispose_create new_ProviderRegistry)) = 2"
    using arg_cong [OF ids, of length] by simp
  from internalId_never_reused [of session_create_dispose_create] ids len show ?thesis by simp
qed

end
